theory Spec2Isabelle
  imports Main
begin

section \<open>Instants, dates and wall-clock times\<close>

text \<open>
  The source works on pandas \<^verbatim>\<open>DatetimeIndex\<close> values, whose elements are
  \<^verbatim>\<open>datetime64[ns]\<close> instants: integers counting nanoseconds since
  1970-01-01T00:00:00. A \<open>timestamp\<close> is such an integer. A calendar date is the number of
  days since 1970-01-01; \<open>Timestamp d\<close> is midnight UTC of date \<open>d\<close>, the value
  \<^verbatim>\<open>pd.Timestamp('YYYY-MM-DD', tz='UTC')\<close> denotes.
\<close>

type_synonym timestamp = int
type_synonym date = int

definition NANOS_IN_MINUTE :: int where
  "NANOS_IN_MINUTE = 60000000000"

definition NANOS_IN_DAY :: int where
  "NANOS_IN_DAY = 1440 * NANOS_IN_MINUTE"

definition MONDAY :: int where "MONDAY = 0"
definition TUESDAY :: int where "TUESDAY = 1"
definition WEDNESDAY :: int where "WEDNESDAY = 2"
definition THURSDAY :: int where "THURSDAY = 3"
definition FRIDAY :: int where "FRIDAY = 4"
definition SATURDAY :: int where "SATURDAY = 5"
definition SUNDAY :: int where "SUNDAY = 6"

text \<open>The day number of a proleptic Gregorian date (year, month, day).\<close>

definition days_from_civil :: "int \<Rightarrow> int \<Rightarrow> int \<Rightarrow> date" where
  "days_from_civil y m d =
     (let y' = (if m \<le> 2 then y - 1 else y);
          era = y' div 400;
          yoe = y' - era * 400;
          mp = (if m > 2 then m - 3 else m + 9);
          doy = (153 * mp + 2) div 5 + d - 1;
          doe = yoe * 365 + yoe div 4 - yoe div 100 + doy
      in era * 146097 + doe - 719468)"

definition Timestamp :: "date \<Rightarrow> timestamp" where
  "Timestamp d = d * NANOS_IN_DAY"

text \<open>\<^verbatim>\<open>Timestamp.weekday()\<close>: Monday is 0; 1970-01-01 was a Thursday.\<close>

definition weekday :: "date \<Rightarrow> int" where
  "weekday d = (d + THURSDAY) mod 7"

text \<open>
  \<^verbatim>\<open>datetime.time(h, m)\<close>; \<open>days_at_time\<close> reads its hour, minute and second.
\<close>

record wall_time =
  hour :: int
  minute :: int
  second :: int

definition time :: "int \<Rightarrow> int \<Rightarrow> wall_time" where
  "time h m = \<lparr>hour = h, minute = m, second = 0\<rparr>"

text \<open>\<^verbatim>\<open>pd.Timedelta(days=, hours=, minutes=, seconds=)\<close>, in nanoseconds.\<close>

definition Timedelta :: "int \<Rightarrow> int \<Rightarrow> int \<Rightarrow> int \<Rightarrow> int" where
  "Timedelta days hours minutes seconds =
     (((days * 24 + hours) * 60 + minutes) * 60 + seconds) * 1000000000"

section \<open>Errors and time zones\<close>

text \<open>
  The exceptions the code can raise: the two pytz exceptions of
  \<^verbatim>\<open>tz_localize\<close>, each carrying the offending local time, and the
  \<^verbatim>\<open>ValueError\<close> and \<^verbatim>\<open>IndexError\<close> of pandas and numpy.
\<close>

datatype error =
    AmbiguousTimeError timestamp
  | NonExistentTimeError timestamp
  | ValueError
  | IndexError

text \<open>
  The time zone database is not part of the repository. A time zone is what
  \<^verbatim>\<open>tz_localize\<close> consults: for a naive local time, either the one UTC offset
  (in nanoseconds) in force, or the report that the local time occurs twice (ambiguous) or
  never (nonexistent).
\<close>

datatype tz_result = Unique int | Ambiguous | NonExistent

type_synonym tzinfo = "timestamp \<Rightarrow> tz_result"

text \<open>
  Modelled from the spec: the table of \<^verbatim>\<open>pytz.timezone("Asia/Shanghai")\<close> is
  missing from the sources; the spec gives it as "no DST, fixed UTC+8".
\<close>

definition Asia_Shanghai :: tzinfo where
  "Asia_Shanghai local = Unique (Timedelta 0 8 0 0)"

text \<open>
  \<^verbatim>\<open>index.tz_localize(tz).tz_convert('UTC')\<close> with pandas' defaults
  \<^verbatim>\<open>ambiguous='raise'\<close> and \<^verbatim>\<open>nonexistent='raise'\<close>: the code passes
  neither argument.
\<close>

fun tz_localize :: "tzinfo \<Rightarrow> timestamp list \<Rightarrow> error + timestamp list" where
  "tz_localize tz [] = Inr []"
| "tz_localize tz (t # ts) =
     (case tz t of
        Ambiguous \<Rightarrow> Inl (AmbiguousTimeError t)
      | NonExistent \<Rightarrow> Inl (NonExistentTimeError t)
      | Unique off \<Rightarrow>
          (case tz_localize tz ts of
             Inl e \<Rightarrow> Inl e
           | Inr us \<Rightarrow> Inr ((t - off) # us)))"

section \<open>days_at_time\<close>

text \<open>
  \<open>days\<close> holds midnights. \<^verbatim>\<open>DatetimeIndex(days).tz_localize(None)\<close> drops
  the UTC label and keeps the values, so the local times handed to the zone are
  \<open>d + delta\<close>. An empty index is returned as it is, before anything is localized.
\<close>

definition days_at_time ::
  "timestamp list \<Rightarrow> wall_time \<Rightarrow> tzinfo \<Rightarrow> int \<Rightarrow> error + timestamp list" where
  "days_at_time days t tz day_offset =
     (if length days = 0 then Inr days
      else
        let delta = Timedelta day_offset (hour t) (minute t) (second t)
        in tz_localize tz (map (\<lambda>d. d + delta) days))"

definition lunch_break_start :: wall_time where
  "lunch_break_start = time 11 30"

definition lunch_break_end :: wall_time where
  "lunch_break_end = time 13 1"

definition start_default :: date where
  "start_default = days_from_civil 1990 12 19"

text \<open>
  \<^verbatim>\<open>end_base\<close> is the instant the module is imported; \<open>today\<close> is its date.
  The time of day of \<^verbatim>\<open>end_default\<close> does not change which midnights are at or
  before it.
\<close>

definition end_default :: "date \<Rightarrow> date" where
  "end_default today = today + 365"

section \<open>The trading days\<close>

text \<open>
  \<^verbatim>\<open>adhoc_holidays\<close> turns the dates of \<^verbatim>\<open>get_cached(use_list=True)\<close>
  (the holiday file, a collaborator outside the sources: the parameter \<open>cached\<close>) into
  midnight timestamps.
\<close>

definition adhoc_holidays :: "date list \<Rightarrow> timestamp list" where
  "adhoc_holidays cached = map Timestamp cached"

text \<open>
  \<^verbatim>\<open>self.day\<close> of the base class is
  \<^verbatim>\<open>CustomBusinessDay(holidays=self.adhoc_holidays)\<close> with the default week mask
  Monday to Friday: a date is on the offset when it is no Saturday, no Sunday and no
  holiday.
\<close>

definition day :: "timestamp list \<Rightarrow> date \<Rightarrow> bool" where
  "day holidays d = (weekday d < SATURDAY \<and> Timestamp d \<notin> set holidays)"

text \<open>
  \<^verbatim>\<open>date_range(start, end, freq=self.day, tz='UTC')\<close> for midnight
  \<open>start\<close> and \<open>end\<close>: the dates of the closed range that are on the offset, ascending,
  each as its midnight timestamp.
\<close>

definition date_range :: "date \<Rightarrow> date \<Rightarrow> (date \<Rightarrow> bool) \<Rightarrow> timestamp list" where
  "date_range start end freq = map Timestamp (filter freq [start..end])"

section \<open>The calendar\<close>

definition name :: string where
  "name = ''SHSZ''"

definition tz :: tzinfo where
  "tz = Asia_Shanghai"

definition open_times :: wall_time where
  "open_times = time 9 31"

definition close_times :: wall_time where
  "close_times = time 15 0"

text \<open>One row of \<^verbatim>\<open>schedule\<close>: the index entry and the four columns.\<close>

record session_row =
  session :: timestamp
  market_open :: timestamp
  market_close :: timestamp
  lunch_break_start_col :: timestamp
  lunch_break_end_col :: timestamp

text \<open>
  The four arrays \<^verbatim>\<open>all_minutes\<close> reads from the object:
  \<^verbatim>\<open>_opens\<close> and \<^verbatim>\<open>_closes\<close>, which the base class sets, and
  \<^verbatim>\<open>_lunch_break_starts\<close> and \<^verbatim>\<open>_lunch_break_ends\<close>, which lines 90
  and 91 set. A constructed calendar holds them and the schedule of line 95.
\<close>

record minute_arrays =
  opens :: "timestamp list"
  closes :: "timestamp list"
  lunch_break_starts :: "timestamp list"
  lunch_break_ends :: "timestamp list"

record calendar = minute_arrays +
  schedule :: "session_row list"

text \<open>
  A column of \<^verbatim>\<open>pd.DataFrame(index=..., data={...})\<close> given as an array: pandas
  repeats an array of length one to the length of the index and raises
  \<^verbatim>\<open>ValueError\<close> for any other length that is not the index's.
\<close>

definition column :: "nat \<Rightarrow> timestamp list \<Rightarrow> error + timestamp list" where
  "column n xs =
     (if length xs = n then Inr xs
      else if length xs = 1 then Inr (replicate n (hd xs))
      else Inl ValueError)"

definition DataFrame ::
  "timestamp list \<Rightarrow> timestamp list \<Rightarrow> timestamp list \<Rightarrow> timestamp list \<Rightarrow>
   timestamp list \<Rightarrow> error + session_row list" where
  "DataFrame index mo mc lbs lbe =
     (case column (length index) mo of Inl e \<Rightarrow> Inl e | Inr mo' \<Rightarrow>
     (case column (length index) mc of Inl e \<Rightarrow> Inl e | Inr mc' \<Rightarrow>
     (case column (length index) lbs of Inl e \<Rightarrow> Inl e | Inr lbs' \<Rightarrow>
     (case column (length index) lbe of Inl e \<Rightarrow> Inl e | Inr lbe' \<Rightarrow>
        Inr (map (\<lambda>i. \<lparr>session = index ! i, market_open = mo' ! i, market_close = mc' ! i,
                        lunch_break_start_col = lbs' ! i, lunch_break_end_col = lbe' ! i\<rparr>)
               [0..<length index])))))"

text \<open>\<^verbatim>\<open>all_sessions\<close> of the base class is the index of the schedule.\<close>

definition all_sessions :: "calendar \<Rightarrow> timestamp list" where
  "all_sessions cal = map session (schedule cal)"

section \<open>Minutes\<close>

text \<open>
  \<^verbatim>\<open>astype('datetime64[m]')\<close> floors an instant to whole minutes;
  \<open>minutes_per_session\<close> is \<^verbatim>\<open>_minutes_per_session\<close>.
\<close>

definition minutes_per_session :: "calendar \<Rightarrow> int list" where
  "minutes_per_session cal =
     map (\<lambda>r. ((lunch_break_start_col r div NANOS_IN_MINUTE
                  - market_open r div NANOS_IN_MINUTE)
               + (market_close r div NANOS_IN_MINUTE
                  - lunch_break_end_col r div NANOS_IN_MINUTE)) + 2)
         (schedule cal)"

text \<open>
  numpy's elementwise \<open>-\<close> and \<open>+\<close> on one-dimensional arrays: equal lengths, or one
  operand of length one that is broadcast; otherwise \<^verbatim>\<open>ValueError\<close>.
\<close>

definition broadcast :: "(int \<Rightarrow> int \<Rightarrow> int) \<Rightarrow> int list \<Rightarrow> int list \<Rightarrow> error + int list" where
  "broadcast f xs ys =
     (if length xs = length ys then Inr (map2 f xs ys)
      else if length ys = 1 then Inr (map (\<lambda>x. f x (hd ys)) xs)
      else if length xs = 1 then Inr (map (\<lambda>y. f (hd xs) y) ys)
      else Inl ValueError)"

text \<open>
  \<^verbatim>\<open>timedelta64 / int\<close> is integer division that truncates towards zero.
\<close>

definition timedelta_div :: "int \<Rightarrow> int \<Rightarrow> int" where
  "timedelta_div a b = (if 0 \<le> a then a div b else - ((- a) div b))"

definition deltas_before_lunch :: "'a minute_arrays_scheme \<Rightarrow> error + int list" where
  "deltas_before_lunch cal = broadcast (-) (lunch_break_starts cal) (opens cal)"

definition deltas_after_lunch :: "'a minute_arrays_scheme \<Rightarrow> error + int list" where
  "deltas_after_lunch cal = broadcast (-) (closes cal) (lunch_break_ends cal)"

definition daily_before_lunch_sizes :: "'a minute_arrays_scheme \<Rightarrow> error + int list" where
  "daily_before_lunch_sizes cal =
     (case deltas_before_lunch cal of
        Inl e \<Rightarrow> Inl e
      | Inr ds \<Rightarrow> Inr (map (\<lambda>d. timedelta_div d NANOS_IN_MINUTE + 1) ds))"

definition daily_after_lunch_sizes :: "'a minute_arrays_scheme \<Rightarrow> error + int list" where
  "daily_after_lunch_sizes cal =
     (case deltas_after_lunch cal of
        Inl e \<Rightarrow> Inl e
      | Inr ds \<Rightarrow> Inr (map (\<lambda>d. timedelta_div d NANOS_IN_MINUTE + 1) ds))"

definition daily_sizes :: "'a minute_arrays_scheme \<Rightarrow> error + int list" where
  "daily_sizes cal =
     (case daily_before_lunch_sizes cal of Inl e \<Rightarrow> Inl e | Inr bs \<Rightarrow>
     (case daily_after_lunch_sizes cal of Inl e \<Rightarrow> Inl e | Inr afs \<Rightarrow>
        broadcast (+) bs afs))"

text \<open>
  \<^verbatim>\<open>np.empty(n)\<close> raises for a negative \<open>n\<close> and otherwise returns \<open>n\<close>
  elements that are whatever the memory held: \<open>mem\<close>.
\<close>

definition np_empty :: "int \<Rightarrow> (nat \<Rightarrow> int) \<Rightarrow> error + int list" where
  "np_empty n mem = (if n < 0 then Inl ValueError else Inr (map mem [0..<nat n]))"

text \<open>\<^verbatim>\<open>np.arange(start, stop, step)\<close> for a positive step.\<close>

definition arange :: "int \<Rightarrow> int \<Rightarrow> int \<Rightarrow> int list" where
  "arange start stop step =
     map (\<lambda>k. start + int k * step) [0..<nat (- ((start - stop) div step))]"

text \<open>\<^verbatim>\<open>xs[i]\<close> for an index that is not negative.\<close>

definition item :: "int list \<Rightarrow> nat \<Rightarrow> error + int" where
  "item xs i = (if i < length xs then Inr (xs ! i) else Inl IndexError)"

text \<open>
  A bound of a Python slice on a sequence of length \<open>n\<close>: a negative bound counts from
  the end, and every bound is clipped to the sequence.
\<close>

definition slice_bound :: "nat \<Rightarrow> int \<Rightarrow> nat" where
  "slice_bound n i = (if i < 0 then nat (max 0 (i + int n)) else min (nat i) n)"

text \<open>
  \<^verbatim>\<open>a[start:stop] = v\<close> on a numpy array: the value must have the length of the
  slice, or length one (it is then repeated); otherwise \<^verbatim>\<open>ValueError\<close>.
\<close>

definition set_slice :: "int list \<Rightarrow> int \<Rightarrow> int \<Rightarrow> int list \<Rightarrow> error + int list" where
  "set_slice a start stop v =
     (let lo = slice_bound (length a) start;
          hi = max lo (slice_bound (length a) stop)
      in if length v = hi - lo then Inr (take lo a @ v @ drop hi a)
         else if length v = 1 then Inr (take lo a @ replicate (hi - lo) (hd v) @ drop hi a)
         else Inl ValueError)"

text \<open>The body of the loop of \<^verbatim>\<open>all_minutes\<close>, on the state \<open>(idx, all_minutes)\<close>.\<close>

definition fill_day ::
  "'a minute_arrays_scheme \<Rightarrow> int list \<Rightarrow> int list \<Rightarrow> nat \<Rightarrow> int \<Rightarrow> int \<times> int list \<Rightarrow>
   error + (int \<times> int list)" where
  "fill_day cal before_sizes after_sizes day_idx size_int st =
     (case st of (idx, minutes) \<Rightarrow>
     (case item before_sizes day_idx of Inl e \<Rightarrow> Inl e | Inr before_lunch_size_int \<Rightarrow>
     (case item after_sizes day_idx of Inl e \<Rightarrow> Inl e | Inr after_lunch_size_int \<Rightarrow>
     (case item (opens cal) day_idx of Inl e \<Rightarrow> Inl e | Inr o1 \<Rightarrow>
     (case item (lunch_break_starts cal) day_idx of Inl e \<Rightarrow> Inl e | Inr lbs \<Rightarrow>
     (case set_slice minutes idx (idx + before_lunch_size_int)
             (arange o1 (lbs + NANOS_IN_MINUTE) NANOS_IN_MINUTE) of
        Inl e \<Rightarrow> Inl e
      | Inr minutes1 \<Rightarrow>
     (case item (lunch_break_ends cal) day_idx of Inl e \<Rightarrow> Inl e | Inr lbe \<Rightarrow>
     (case item (closes cal) day_idx of Inl e \<Rightarrow> Inl e | Inr cl \<Rightarrow>
     (case set_slice minutes1 (idx + before_lunch_size_int) (idx + size_int)
             (arange lbe (cl + NANOS_IN_MINUTE) NANOS_IN_MINUTE) of
        Inl e \<Rightarrow> Inl e
      | Inr minutes2 \<Rightarrow> Inr (idx + size_int, minutes2))))))))))"

text \<open>
  The loop \<^verbatim>\<open>for day_idx, size in enumerate(daily_sizes)\<close>; an exception in the
  body ends it.
\<close>

fun fill_loop ::
  "(nat \<Rightarrow> int \<Rightarrow> int \<times> int list \<Rightarrow> error + (int \<times> int list)) \<Rightarrow> (nat \<times> int) list \<Rightarrow>
   int \<times> int list \<Rightarrow> error + (int \<times> int list)" where
  "fill_loop body [] st = Inr st"
| "fill_loop body ((day_idx, sz) # rest) st =
     (case body day_idx sz st of
        Inl e \<Rightarrow> Inl e
      | Inr st' \<Rightarrow> fill_loop body rest st')"

definition all_minutes ::
  "'a minute_arrays_scheme \<Rightarrow> (nat \<Rightarrow> int) \<Rightarrow> error + timestamp list" where
  "all_minutes cal mem =
     (case daily_before_lunch_sizes cal of Inl e \<Rightarrow> Inl e | Inr before_sizes \<Rightarrow>
     (case daily_after_lunch_sizes cal of Inl e \<Rightarrow> Inl e | Inr after_sizes \<Rightarrow>
     (case daily_sizes cal of Inl e \<Rightarrow> Inl e | Inr sizes \<Rightarrow>
     (case np_empty (sum_list sizes) mem of Inl e \<Rightarrow> Inl e | Inr minutes \<Rightarrow>
     (case fill_loop (fill_day cal before_sizes after_sizes) (enumerate 0 sizes) (0, minutes) of
        Inl e \<Rightarrow> Inl e
      | Inr (idx, minutes') \<Rightarrow> Inr minutes')))))"

section \<open>Construction\<close>

text \<open>
  Modelled from the spec: \<^verbatim>\<open>TradingCalendar.__init__(self, start, end)\<close> belongs
  to zipline and is missing from the sources. By the spec the engine "performs its full
  build eagerly during construction": the open and the close of every trading day of the
  range, and the minute grid. The base class computes \<^verbatim>\<open>_opens\<close> and
  \<^verbatim>\<open>_closes\<close> for the trading days of the range it is given, by its own
  \<open>days_at_time\<close> (the function above is a copy of it) with offset 0 and no special
  opens or closes. It then evaluates \<^verbatim>\<open>self.all_minutes\<close>, which on this class
  is the override of lines 135 to 191 (the parameter \<open>minutes\<close>, applied to the opens
  and closes just computed), and reads its first trading day,
  \<^verbatim>\<open>_all_days[0]\<close>. An exception of any of these steps leaves the constructor.
\<close>

definition TradingCalendar_init ::
  "timestamp list \<Rightarrow> date \<Rightarrow> date \<Rightarrow>
   (timestamp list \<Rightarrow> timestamp list \<Rightarrow> error + timestamp list) \<Rightarrow>
   error + (timestamp list \<times> timestamp list)" where
  "TradingCalendar_init holidays start end minutes =
     (let all_days = date_range start end (day holidays)
      in
     (case days_at_time all_days open_times tz 0 of Inl e \<Rightarrow> Inl e | Inr os \<Rightarrow>
     (case days_at_time all_days close_times tz 0 of Inl e \<Rightarrow> Inl e | Inr cs \<Rightarrow>
     (case minutes os cs of Inl e \<Rightarrow> Inl e | Inr grid \<Rightarrow>
     (case item all_days 0 of Inl e \<Rightarrow> Inl e | Inr first_trading_session \<Rightarrow>
        Inr (os, cs))))))"

text \<open>
  \<^verbatim>\<open>SHSZExchangeCalendar.__init__(self, start, end)\<close>, for the module imported on
  the date \<open>today\<close> and the holiday file \<open>cached\<close>. Lines 88 to 91 take the lunch
  break series and the index of the schedule from the days of \<open>start\<close> and \<open>end\<close>.
  Line 93 initialises the base class with \<open>start_default\<close> and \<open>end_default\<close>; the
  \<^verbatim>\<open>all_minutes\<close> the base class evaluates reads the lunch break series of lines
  90 and 91 and the opens and closes of the default range, and \<open>mem\<close> is what the
  memory of its \<^verbatim>\<open>np.empty\<close> holds. Line 95 builds the schedule from the four
  arrays. The default arguments are \<open>start_default\<close> and \<open>end_default today\<close>.
\<close>

definition SHSZExchangeCalendar ::
  "date \<Rightarrow> date list \<Rightarrow> (nat \<Rightarrow> int) \<Rightarrow> date \<Rightarrow> date \<Rightarrow> error + calendar" where
  "SHSZExchangeCalendar today cached mem start end =
     (let all_days = date_range start end (day (adhoc_holidays cached))
      in
     (case days_at_time all_days lunch_break_start tz 0 of Inl e \<Rightarrow> Inl e | Inr lbs \<Rightarrow>
     (case days_at_time all_days lunch_break_end tz 0 of Inl e \<Rightarrow> Inl e | Inr lbe \<Rightarrow>
     (case TradingCalendar_init (adhoc_holidays cached) start_default (end_default today)
             (\<lambda>os cs. all_minutes \<lparr>opens = os, closes = cs, lunch_break_starts = lbs,
                                    lunch_break_ends = lbe\<rparr> mem) of
        Inl e \<Rightarrow> Inl e
      | Inr (os, cs) \<Rightarrow>
     (case DataFrame all_days os cs lbs lbe of Inl e \<Rightarrow> Inl e | Inr sched \<Rightarrow>
        Inr \<lparr>opens = os, closes = cs, lunch_break_starts = lbs,
             lunch_break_ends = lbe, schedule = sched\<rparr>)))))"

section \<open>Notions used to state the properties\<close>

text \<open>
  A row is localized when each of its four boundaries is what \<open>days_at_time\<close> returns
  for the row's own session date at the configured wall-clock time.
\<close>

definition localized_row :: "session_row \<Rightarrow> bool" where
  "localized_row r =
     (days_at_time [session r] open_times tz 0 = Inr [market_open r] \<and>
      days_at_time [session r] lunch_break_start tz 0 = Inr [lunch_break_start_col r] \<and>
      days_at_time [session r] lunch_break_end tz 0 = Inr [lunch_break_end_col r] \<and>
      days_at_time [session r] close_times tz 0 = Inr [market_close r])"

text \<open>
  The row of a session at midnight \<open>t\<close> whose boundaries are 09:31, 11:30, 13:01 and
  15:00 of that day at UTC+8, which is 01:31, 03:30, 05:01 and 07:00 UTC.
\<close>

definition utc_row :: "timestamp \<Rightarrow> session_row" where
  "utc_row t =
     \<lparr>session = t,
      market_open = t + 91 * NANOS_IN_MINUTE,
      market_close = t + 420 * NANOS_IN_MINUTE,
      lunch_break_start_col = t + 210 * NANOS_IN_MINUTE,
      lunch_break_end_col = t + 301 * NANOS_IN_MINUTE\<rparr>"

text \<open>
  The four arrays of an object whose opens and closes are those of the dates \<open>d\<close> and
  whose lunch breaks are those of the dates \<open>a\<close>, all at UTC+8.
\<close>

definition holds_days :: "'a minute_arrays_scheme \<Rightarrow> date list \<Rightarrow> date list \<Rightarrow> bool" where
  "holds_days cal a d =
     (opens cal = map (\<lambda>t. t + 91 * NANOS_IN_MINUTE) (map Timestamp d) \<and>
      closes cal = map (\<lambda>t. t + 420 * NANOS_IN_MINUTE) (map Timestamp d) \<and>
      lunch_break_starts cal = map (\<lambda>t. t + 210 * NANOS_IN_MINUTE) (map Timestamp a) \<and>
      lunch_break_ends cal = map (\<lambda>t. t + 301 * NANOS_IN_MINUTE) (map Timestamp a))"

text \<open>
  The per-row ordering of the boundaries.
\<close>

definition ordered_row :: "session_row \<Rightarrow> bool" where
  "ordered_row r =
     (market_open r < lunch_break_start_col r \<and>
      lunch_break_start_col r < lunch_break_end_col r \<and>
      lunch_break_end_col r < market_close r)"

text \<open>
  The one-minute ticks of the two trading windows of a row, both ends included: the two
  ranges the loop body of \<open>all_minutes\<close> writes for a day.
\<close>

definition session_minutes :: "session_row \<Rightarrow> timestamp list" where
  "session_minutes r =
     arange (market_open r) (lunch_break_start_col r + NANOS_IN_MINUTE) NANOS_IN_MINUTE @
     arange (lunch_break_end_col r) (market_close r + NANOS_IN_MINUTE) NANOS_IN_MINUTE"

text \<open>An instant lies in one of the two trading windows of a row.\<close>

definition in_session :: "session_row \<Rightarrow> timestamp \<Rightarrow> bool" where
  "in_session r x =
     ((market_open r \<le> x \<and> x \<le> lunch_break_start_col r) \<or>
      (lunch_break_end_col r \<le> x \<and> x \<le> market_close r))"

section \<open>Localization in the calendar's time zone\<close>

lemma NANOS_IN_MINUTE_pos: "0 < NANOS_IN_MINUTE"
  by (simp add: NANOS_IN_MINUTE_def)

lemma Timedelta_minutes: "Timedelta 0 h m 0 = (h * 60 + m) * NANOS_IN_MINUTE"
  by (simp add: Timedelta_def NANOS_IN_MINUTE_def)

lemma tz_localize_tz: "tz_localize tz xs = Inr (map (\<lambda>t. t - 480 * NANOS_IN_MINUTE) xs)"
  by (induction xs) (simp_all add: tz_def Asia_Shanghai_def Timedelta_minutes)

lemma days_at_time_tz:
  "days_at_time days (time h m) tz 0 =
     Inr (map (\<lambda>d. d + (h * 60 + m - 480) * NANOS_IN_MINUTE) days)"
proof (cases days)
  case Nil
  then show ?thesis by (simp add: days_at_time_def)
next
  case (Cons d ds)
  then show ?thesis
    by (simp add: days_at_time_def time_def Timedelta_minutes tz_localize_tz
        algebra_simps Let_def del: tz_localize.simps)
qed

lemma days_at_open: "days_at_time days open_times tz 0 = Inr (map (\<lambda>d. d + 91 * NANOS_IN_MINUTE) days)"
  by (simp add: open_times_def days_at_time_tz)

lemma days_at_close: "days_at_time days close_times tz 0 = Inr (map (\<lambda>d. d + 420 * NANOS_IN_MINUTE) days)"
  by (simp add: close_times_def days_at_time_tz)

lemma days_at_lunch_start:
  "days_at_time days lunch_break_start tz 0 = Inr (map (\<lambda>d. d + 210 * NANOS_IN_MINUTE) days)"
  by (simp add: lunch_break_start_def days_at_time_tz)

lemma days_at_lunch_end:
  "days_at_time days lunch_break_end tz 0 = Inr (map (\<lambda>d. d + 301 * NANOS_IN_MINUTE) days)"
  by (simp add: lunch_break_end_def days_at_time_tz)

lemma TradingCalendar_init_eq:
  "TradingCalendar_init hol s e minutes =
     (case minutes (map (\<lambda>d. d + 91 * NANOS_IN_MINUTE) (date_range s e (day hol)))
             (map (\<lambda>d. d + 420 * NANOS_IN_MINUTE) (date_range s e (day hol))) of
        Inl err \<Rightarrow> Inl err
      | Inr grid \<Rightarrow>
          (if date_range s e (day hol) = [] then Inl IndexError
           else Inr (map (\<lambda>d. d + 91 * NANOS_IN_MINUTE) (date_range s e (day hol)),
                     map (\<lambda>d. d + 420 * NANOS_IN_MINUTE) (date_range s e (day hol)))))"
  by (simp add: TradingCalendar_init_def days_at_open days_at_close Let_def item_def
      split: sum.splits)

lemma start_default_eq: "start_default = 7657"
  by (simp add: start_default_def days_from_civil_def Let_def)

section \<open>Anomalous local times\<close>

lemma tz_localize_anomaly:
  "\<exists>l\<in>set ts. z l = Ambiguous \<or> z l = NonExistent \<Longrightarrow>
   \<exists>l\<in>set ts.
     (tz_localize z ts = Inl (AmbiguousTimeError l) \<and> z l = Ambiguous) \<or>
     (tz_localize z ts = Inl (NonExistentTimeError l) \<and> z l = NonExistent)"
proof (induction ts)
  case Nil
  then show ?case by simp
next
  case (Cons t ts)
  show ?case
  proof (cases "z t")
    case (Unique off)
    with Cons.prems have "\<exists>l\<in>set ts. z l = Ambiguous \<or> z l = NonExistent"
      by auto
    from Cons.IH [OF this] Unique show ?thesis
      by auto
  next
    case Ambiguous
    then show ?thesis by simp
  next
    case NonExistent
    then show ?thesis by simp
  qed
qed

text \<open>
  C7. Whenever the time zone reports the local time of one of the days as ambiguous or
  nonexistent, \<open>days_at_time\<close> raises: the result is the pytz exception that carries
  an offending local time of the input, never a list of instants.
\<close>

theorem days_at_time_anomaly_raises:
  assumes "d \<in> set days"
    and "z (d + Timedelta day_offset (hour t) (minute t) (second t)) = Ambiguous \<or>
         z (d + Timedelta day_offset (hour t) (minute t) (second t)) = NonExistent"
  shows "\<exists>x\<in>set days.
           (days_at_time days t z day_offset =
              Inl (AmbiguousTimeError
                     (x + Timedelta day_offset (hour t) (minute t) (second t))) \<and>
            z (x + Timedelta day_offset (hour t) (minute t) (second t)) = Ambiguous) \<or>
           (days_at_time days t z day_offset =
              Inl (NonExistentTimeError
                     (x + Timedelta day_offset (hour t) (minute t) (second t))) \<and>
            z (x + Timedelta day_offset (hour t) (minute t) (second t)) = NonExistent)"
proof -
  let ?delta = "Timedelta day_offset (hour t) (minute t) (second t)"
  let ?ls = "map (\<lambda>d. d + ?delta) days"
  from assms have "\<exists>l\<in>set ?ls. z l = Ambiguous \<or> z l = NonExistent"
    by auto
  from tz_localize_anomaly [OF this]
  obtain l where l: "l \<in> set ?ls"
    and r: "(tz_localize z ?ls = Inl (AmbiguousTimeError l) \<and> z l = Ambiguous) \<or>
            (tz_localize z ?ls = Inl (NonExistentTimeError l) \<and> z l = NonExistent)"
    by blast
  from l obtain x where x: "x \<in> set days" "l = x + ?delta"
    by auto
  from assms(1) have "length days \<noteq> 0"
    by auto
  then have "days_at_time days t z day_offset = tz_localize z ?ls"
    by (simp add: days_at_time_def Let_def)
  with r x show ?thesis
    by auto
qed

text \<open>A zone whose first day does not exist: 02:30 on 1970-01-01 is refused.\<close>

theorem days_at_time_anomaly_raises_witness:
  "days_at_time [Timestamp 0] (time 2 30) (\<lambda>l. if l < Timestamp 1 then NonExistent else Unique 0) 0
     = Inl (NonExistentTimeError (Timestamp 0 + Timedelta 0 2 30 0))"
  using days_at_time_anomaly_raises
    [of "Timestamp 0" "[Timestamp 0]" "\<lambda>l. if l < Timestamp 1 then NonExistent else Unique 0"
        0 "time 2 30"]
  by (simp add: time_def Timestamp_def Timedelta_def NANOS_IN_DAY_def NANOS_IN_MINUTE_def)

section \<open>Trading days and rows\<close>

lemma NANOS_IN_DAY_pos: "0 < NANOS_IN_DAY"
  by (simp add: NANOS_IN_DAY_def NANOS_IN_MINUTE_def)

lemma Timestamp_less: "Timestamp a < Timestamp b \<longleftrightarrow> a < b"
  using NANOS_IN_DAY_pos by (simp add: Timestamp_def)

lemma Timestamp_eq: "Timestamp a = Timestamp b \<longleftrightarrow> a = b"
  using NANOS_IN_DAY_pos by (simp add: Timestamp_def)

lemma column_Inr:
  "column n xs = Inr ys \<longleftrightarrow>
     (length xs = n \<and> ys = xs) \<or> (length xs \<noteq> n \<and> length xs = 1 \<and> ys = replicate n (hd xs))"
  by (auto simp: column_def)

lemma column_same: "length xs = n \<Longrightarrow> column n xs = Inr xs"
  by (simp add: column_def)

lemma DataFrame_index:
  assumes "DataFrame idx mo mc lbs lbe = Inr sched"
  shows "map session sched = idx"
proof -
  from assms have "map session sched = map (\<lambda>i. idx ! i) [0..<length idx]"
    by (auto simp: DataFrame_def split: sum.splits)
  then show ?thesis
    by (simp add: map_nth)
qed

lemma weekday_range: "0 \<le> weekday d \<and> weekday d < 7"
  by (simp add: weekday_def)

lemma day_iff:
  "day (adhoc_holidays cached) d \<longleftrightarrow>
     weekday d \<noteq> SATURDAY \<and> weekday d \<noteq> SUNDAY \<and> d \<notin> set cached"
proof -
  have "weekday d < SATURDAY \<longleftrightarrow> weekday d \<noteq> SATURDAY \<and> weekday d \<noteq> SUNDAY"
    using weekday_range [of d] by (auto simp: SATURDAY_def SUNDAY_def)
  moreover have "Timestamp d \<in> set (map Timestamp cached) \<longleftrightarrow> d \<in> set cached"
    by (auto simp: Timestamp_eq)
  ultimately show ?thesis
    by (simp add: day_def adhoc_holidays_def)
qed

lemma date_range_sorted: "sorted_wrt (<) (date_range s e f)"
proof -
  have "sorted_wrt (<) (filter f [s..e])"
    by (rule sorted_wrt_filter) simp
  then show ?thesis
    by (simp add: date_range_def sorted_wrt_map Timestamp_less)
qed

lemma date_range_distinct: "distinct (date_range s e f)"
  using date_range_sorted [of s e f] strict_sorted_iff by blast

lemma date_range_set: "set (date_range s e f) = Timestamp ` {d. s \<le> d \<and> d \<le> e \<and> f d}"
  by (auto simp: date_range_def)

lemma localized_row_iff: "localized_row r \<longleftrightarrow> r = utc_row (session r)"
  by (cases r)
     (auto simp: localized_row_def utc_row_def days_at_open days_at_close
        days_at_lunch_start days_at_lunch_end)

lemma ordered_utc_row: "ordered_row (utc_row t)"
  using NANOS_IN_MINUTE_pos by (simp add: ordered_row_def utc_row_def)

lemma DataFrame_same_length:
  assumes "length mo = length idx" "length mc = length idx"
    "length lbs = length idx" "length lbe = length idx"
  shows "DataFrame idx mo mc lbs lbe =
           Inr (map (\<lambda>i. \<lparr>session = idx ! i, market_open = mo ! i, market_close = mc ! i,
                           lunch_break_start_col = lbs ! i, lunch_break_end_col = lbe ! i\<rparr>)
                  [0..<length idx])"
  using assms by (simp add: DataFrame_def column_same)

lemma DataFrame_utc_rows:
  "DataFrame ds (map (\<lambda>d. d + 91 * NANOS_IN_MINUTE) ds)
     (map (\<lambda>d. d + 420 * NANOS_IN_MINUTE) ds)
     (map (\<lambda>d. d + 210 * NANOS_IN_MINUTE) ds)
     (map (\<lambda>d. d + 301 * NANOS_IN_MINUTE) ds) = Inr (map utc_row ds)"
proof -
  have "map (\<lambda>i. \<lparr>session = ds ! i,
                    market_open = map (\<lambda>d. d + 91 * NANOS_IN_MINUTE) ds ! i,
                    market_close = map (\<lambda>d. d + 420 * NANOS_IN_MINUTE) ds ! i,
                    lunch_break_start_col = map (\<lambda>d. d + 210 * NANOS_IN_MINUTE) ds ! i,
                    lunch_break_end_col = map (\<lambda>d. d + 301 * NANOS_IN_MINUTE) ds ! i\<rparr>)
          [0..<length ds] = map utc_row ds"
    by (rule nth_equalityI) (simp_all add: utc_row_def)
  then show ?thesis
    by (simp add: DataFrame_same_length)
qed

section \<open>Ranges and slices\<close>

lemma neg_mult_div: "0 < b \<Longrightarrow> (- (c * b)) div (b::int) = - c"
  using nonzero_mult_div_cancel_right [of b "- c"] by simp

lemma arange_length:
  assumes "0 < step"
  shows "length (arange s (s + c * step) step) = nat c"
proof -
  have "(s - (s + c * step)) div step = - c"
    using assms by (simp add: neg_mult_div)
  then show ?thesis
    by (simp add: arange_def)
qed

lemma arange_eq:
  assumes "0 < step"
  shows "arange s (s + c * step) step = map (\<lambda>k. s + int k * step) [0..<nat c]"
proof -
  have "(s - (s + c * step)) div step = - c"
    using assms by (simp add: neg_mult_div)
  then show ?thesis
    by (simp add: arange_def)
qed

lemma slice_bound_le: "slice_bound n i \<le> n"
  by (auto simp: slice_bound_def)

lemma slice_bound_inside: "0 \<le> i \<Longrightarrow> i \<le> int n \<Longrightarrow> slice_bound n i = nat i"
  by (simp add: slice_bound_def)

lemma set_slice_length:
  assumes "set_slice a lo hi v = Inr a'"
  shows "length a' = length a"
proof -
  let ?l = "slice_bound (length a) lo"
  let ?h = "max ?l (slice_bound (length a) hi)"
  have "?l \<le> ?h" "?h \<le> length a"
    by (simp_all add: slice_bound_le)
  with assms show ?thesis
    by (auto simp: set_slice_def Let_def split: if_splits)
qed

lemma set_slice_exact:
  assumes "0 \<le> lo" "lo \<le> hi" "hi \<le> int (length a)" "int (length v) = hi - lo"
  shows "set_slice a lo hi v = Inr (take (nat lo) a @ v @ drop (nat hi) a)"
proof -
  have l: "slice_bound (length a) lo = nat lo"
    using assms by (simp add: slice_bound_inside)
  have h: "slice_bound (length a) hi = nat hi"
    using assms by (simp add: slice_bound_inside)
  have "max (nat lo) (nat hi) = nat hi" "length v = nat hi - nat lo"
    using assms by simp_all
  then show ?thesis
    by (simp add: set_slice_def Let_def l h)
qed

lemma set_slice_mismatch:
  assumes "length v \<noteq> max (slice_bound (length a) lo) (slice_bound (length a) hi)
                          - slice_bound (length a) lo"
    and "length v \<noteq> 1"
  shows "set_slice a lo hi v = Inl ValueError"
  using assms by (simp add: set_slice_def Let_def)

lemma timedelta_div_exact:
  assumes "0 < b"
  shows "timedelta_div (c * b) b = c"
proof (cases "0 \<le> c")
  case True
  then have "0 \<le> c * b" using assms by simp
  then show ?thesis using assms by (simp add: timedelta_div_def)
next
  case False
  then have "c * b < 0" using assms by (simp add: mult_neg_pos)
  moreover have "(- (c * b)) div b = - c"
    using assms by (simp add: neg_mult_div)
  ultimately show ?thesis
    by (simp add: timedelta_div_def)
qed

lemma item_nth: "i < length xs \<Longrightarrow> item xs i = Inr (xs ! i)"
  by (simp add: item_def)

lemma item_out: "length xs \<le> i \<Longrightarrow> item xs i = Inl IndexError"
  by (simp add: item_def)

section \<open>The sizes of the days\<close>

text \<open>
  In this section the opens and closes belong to the dates \<open>d\<close> and the lunch breaks to
  the dates \<open>a\<close>, two lists of one length: what the object holds at line 93 when
  the default range and the range of the arguments have the same number of trading days.
\<close>

lemma Timestamp_diff: "Timestamp x - Timestamp y = (x - y) * 1440 * NANOS_IN_MINUTE"
  by (simp add: Timestamp_def NANOS_IN_DAY_def algebra_simps)

lemma before_delta:
  "(Timestamp x + 210 * NANOS_IN_MINUTE) - (Timestamp y + 91 * NANOS_IN_MINUTE) =
     ((x - y) * 1440 + 119) * NANOS_IN_MINUTE"
  using Timestamp_diff [of x y] by (simp add: algebra_simps)

lemma after_delta:
  "(Timestamp y + 420 * NANOS_IN_MINUTE) - (Timestamp x + 301 * NANOS_IN_MINUTE) =
     ((y - x) * 1440 + 119) * NANOS_IN_MINUTE"
  using Timestamp_diff [of y x] by (simp add: algebra_simps)

lemma broadcast_same: "length xs = length ys \<Longrightarrow> broadcast f xs ys = Inr (map2 f xs ys)"
  by (simp add: broadcast_def)

lemma before_sizes_eq:
  assumes "lunch_break_starts cal = map (\<lambda>t. t + 210 * NANOS_IN_MINUTE) (map Timestamp a)"
    and "opens cal = map (\<lambda>t. t + 91 * NANOS_IN_MINUTE) (map Timestamp d)"
    and "length a = length d"
  shows "daily_before_lunch_sizes cal = Inr (map2 (\<lambda>x y. (x - y) * 1440 + 120) a d)"
proof -
  have "map (\<lambda>\<delta>. timedelta_div \<delta> NANOS_IN_MINUTE + 1)
          (map2 (-) (lunch_break_starts cal) (opens cal)) =
        map2 (\<lambda>x y. (x - y) * 1440 + 120) a d"
    using assms NANOS_IN_MINUTE_pos
    by (intro nth_equalityI)
       (simp_all add: before_delta timedelta_div_exact del: of_nat_mult)
  then show ?thesis
    using assms by (simp add: daily_before_lunch_sizes_def deltas_before_lunch_def broadcast_same)
qed

lemma after_sizes_eq:
  assumes "lunch_break_ends cal = map (\<lambda>t. t + 301 * NANOS_IN_MINUTE) (map Timestamp a)"
    and "closes cal = map (\<lambda>t. t + 420 * NANOS_IN_MINUTE) (map Timestamp d)"
    and "length a = length d"
  shows "daily_after_lunch_sizes cal = Inr (map2 (\<lambda>x y. (y - x) * 1440 + 120) a d)"
proof -
  have "map (\<lambda>\<delta>. timedelta_div \<delta> NANOS_IN_MINUTE + 1)
          (map2 (-) (closes cal) (lunch_break_ends cal)) =
        map2 (\<lambda>x y. (y - x) * 1440 + 120) a d"
    using assms NANOS_IN_MINUTE_pos
    by (intro nth_equalityI)
       (simp_all add: after_delta timedelta_div_exact del: of_nat_mult)
  then show ?thesis
    using assms by (simp add: daily_after_lunch_sizes_def deltas_after_lunch_def broadcast_same)
qed

lemma sizes_eq:
  assumes "daily_before_lunch_sizes cal = Inr (map2 (\<lambda>x y. (x - y) * 1440 + 120) a d)"
    and "daily_after_lunch_sizes cal = Inr (map2 (\<lambda>x y. (y - x) * 1440 + 120) a d)"
    and "length a = length d"
  shows "daily_sizes cal = Inr (replicate (length a) 240)"
proof -
  have "map2 (+) (map2 (\<lambda>x y. (x - y) * 1440 + 120) a d)
          (map2 (\<lambda>x y. (y - x) * 1440 + 120) a d) = replicate (length a) 240"
    using assms(3) by (intro nth_equalityI) simp_all
  then show ?thesis
    using assms by (simp add: daily_sizes_def broadcast_same)
qed

section \<open>One pass of the loop body\<close>

lemma holds_days_sizes:
  assumes "holds_days cal a d" "length a = length d"
  shows "daily_before_lunch_sizes cal = Inr (map2 (\<lambda>x y. (x - y) * 1440 + 120) a d)"
    and "daily_after_lunch_sizes cal = Inr (map2 (\<lambda>x y. (y - x) * 1440 + 120) a d)"
    and "daily_sizes cal = Inr (replicate (length a) 240)"
proof -
  show b: "daily_before_lunch_sizes cal = Inr (map2 (\<lambda>x y. (x - y) * 1440 + 120) a d)"
    using assms by (intro before_sizes_eq) (simp_all add: holds_days_def)
  show c: "daily_after_lunch_sizes cal = Inr (map2 (\<lambda>x y. (y - x) * 1440 + 120) a d)"
    using assms by (intro after_sizes_eq) (simp_all add: holds_days_def)
  show "daily_sizes cal = Inr (replicate (length a) 240)"
    using b c assms(2) by (rule sizes_eq)
qed

lemma fill_day_unfold:
  assumes h: "holds_days cal a d" and len: "length a = length d" and i: "i < length a"
    and k: "k = a ! i - d ! i"
  shows "fill_day cal (map2 (\<lambda>x y. (x - y) * 1440 + 120) a d)
           (map2 (\<lambda>x y. (y - x) * 1440 + 120) a d) i sz (idx, arr) =
         (case set_slice arr idx (idx + (k * 1440 + 120))
                 (arange (Timestamp (d ! i) + 91 * NANOS_IN_MINUTE)
                    (Timestamp (d ! i) + 91 * NANOS_IN_MINUTE
                       + (k * 1440 + 120) * NANOS_IN_MINUTE) NANOS_IN_MINUTE) of
            Inl e \<Rightarrow> Inl e
          | Inr m1 \<Rightarrow>
              (case set_slice m1 (idx + (k * 1440 + 120)) (idx + sz)
                      (arange (Timestamp (a ! i) + 301 * NANOS_IN_MINUTE)
                         (Timestamp (a ! i) + 301 * NANOS_IN_MINUTE
                            + (120 - k * 1440) * NANOS_IN_MINUTE) NANOS_IN_MINUTE) of
                 Inl e \<Rightarrow> Inl e
               | Inr m2 \<Rightarrow> Inr (idx + sz, m2)))"
proof -
  have s1: "Timestamp (a ! i) + 210 * NANOS_IN_MINUTE + NANOS_IN_MINUTE =
            Timestamp (d ! i) + 91 * NANOS_IN_MINUTE + (k * 1440 + 120) * NANOS_IN_MINUTE"
    unfolding k by (simp add: Timestamp_def NANOS_IN_DAY_def algebra_simps)
  have s2: "Timestamp (d ! i) + 420 * NANOS_IN_MINUTE + NANOS_IN_MINUTE =
            Timestamp (a ! i) + 301 * NANOS_IN_MINUTE + (120 - k * 1440) * NANOS_IN_MINUTE"
    unfolding k by (simp add: Timestamp_def NANOS_IN_DAY_def algebra_simps)
  have k2: "(d ! i - a ! i) * 1440 + 120 = 120 - k * 1440"
    using k by (simp add: algebra_simps)
  from h len i have
    "item (opens cal) i = Inr (Timestamp (d ! i) + 91 * NANOS_IN_MINUTE)"
    "item (closes cal) i = Inr (Timestamp (d ! i) + 420 * NANOS_IN_MINUTE)"
    "item (lunch_break_starts cal) i = Inr (Timestamp (a ! i) + 210 * NANOS_IN_MINUTE)"
    "item (lunch_break_ends cal) i = Inr (Timestamp (a ! i) + 301 * NANOS_IN_MINUTE)"
    by (simp_all add: holds_days_def item_nth)
  moreover from len i have
    "item (map2 (\<lambda>x y. (x - y) * 1440 + 120) a d) i = Inr (k * 1440 + 120)"
    "item (map2 (\<lambda>x y. (y - x) * 1440 + 120) a d) i = Inr (120 - k * 1440)"
    by (simp_all add: item_nth k k2)
  ultimately show ?thesis
    by (simp add: fill_day_def s1 s2 cong: sum.case_cong)
qed

lemma two_slices:
  assumes l1: "length v1 = 120" and l2: "length v2 = 120"
    and in_range: "240 * i + 240 \<le> length arr"
  shows "set_slice arr (240 * int i) (240 * int i + 120) v1 =
           Inr (take (240 * i) arr @ v1 @ drop (240 * i + 120) arr)"
    and "set_slice (take (240 * i) arr @ v1 @ drop (240 * i + 120) arr)
           (240 * int i + 120) (240 * int i + 240) v2 =
           Inr (take (240 * i) arr @ v1 @ v2 @ drop (240 * Suc i) arr)"
proof -
  let ?m1 = "take (240 * i) arr @ v1 @ drop (240 * i + 120) arr"
  have n0: "nat (240 * int i) = 240 * i"
    and n1: "nat (240 * int i + 120) = 240 * i + 120"
    and n2: "nat (240 * int i + 240) = 240 * Suc i"
    by (simp_all add: nat_add_distrib nat_mult_distrib)
  have "set_slice arr (240 * int i) (240 * int i + 120) v1 =
        Inr (take (nat (240 * int i)) arr @ v1 @ drop (nat (240 * int i + 120)) arr)"
    using in_range l1 by (intro set_slice_exact) simp_all
  then show "set_slice arr (240 * int i) (240 * int i + 120) v1 = Inr ?m1"
    by (simp only: n0 n1)
  have lm1: "length ?m1 = length arr"
    using in_range l1 by simp
  have t: "take (240 * i + 120) ?m1 = take (240 * i) arr @ v1"
    using in_range l1 by simp
  have d: "drop (240 * Suc i) ?m1 = drop (240 * Suc i) arr"
    using in_range l1 by simp
  have "set_slice ?m1 (240 * int i + 120) (240 * int i + 240) v2 =
        Inr (take (nat (240 * int i + 120)) ?m1 @ v2 @ drop (nat (240 * int i + 240)) ?m1)"
    using in_range l2 lm1 by (intro set_slice_exact) simp_all
  then show "set_slice ?m1 (240 * int i + 120) (240 * int i + 240) v2 =
             Inr (take (240 * i) arr @ v1 @ v2 @ drop (240 * Suc i) arr)"
    by (simp only: n1 n2 t d append_assoc)
qed

text \<open>A day whose four boundaries belong to one date fills its 240 minutes.\<close>

lemma fill_day_same_date:
  assumes h: "holds_days cal a d" and len: "length a = length d" and i: "i < length a"
    and same: "a ! i = d ! i" and arr: "length arr = 240 * length a"
  shows "fill_day cal (map2 (\<lambda>x y. (x - y) * 1440 + 120) a d)
           (map2 (\<lambda>x y. (y - x) * 1440 + 120) a d) i 240 (240 * int i, arr) =
         Inr (240 * int (Suc i),
              take (240 * i) arr @ session_minutes (utc_row (Timestamp (a ! i)))
                @ drop (240 * Suc i) arr)"
proof -
  define v1 where "v1 = arange (Timestamp (d ! i) + 91 * NANOS_IN_MINUTE)
               (Timestamp (d ! i) + 91 * NANOS_IN_MINUTE + (0 * 1440 + 120) * NANOS_IN_MINUTE)
               NANOS_IN_MINUTE"
  define v2 where "v2 = arange (Timestamp (a ! i) + 301 * NANOS_IN_MINUTE)
               (Timestamp (a ! i) + 301 * NANOS_IN_MINUTE + (120 - 0 * 1440) * NANOS_IN_MINUTE)
               NANOS_IN_MINUTE"
  have "length v1 = nat (0 * 1440 + 120)" and "length v2 = nat (120 - 0 * 1440)"
    unfolding v1_def v2_def by (rule arange_length [OF NANOS_IN_MINUTE_pos])+
  then have l1: "length v1 = 120" and l2: "length v2 = 120"
    by simp_all
  have sm: "session_minutes (utc_row (Timestamp (a ! i))) = v1 @ v2"
    by (simp add: session_minutes_def utc_row_def same v1_def v2_def algebra_simps)
  have in_range: "240 * i + 240 \<le> length arr"
    using i arr by simp
  have k: "0 = a ! i - d ! i"
    using same by simp
  have "fill_day cal (map2 (\<lambda>x y. (x - y) * 1440 + 120) a d)
           (map2 (\<lambda>x y. (y - x) * 1440 + 120) a d) i 240 (240 * int i, arr) =
        Inr (240 * int i + 240, take (240 * i) arr @ v1 @ v2 @ drop (240 * Suc i) arr)"
    unfolding fill_day_unfold [OF h len i k]
    by (fold v1_def v2_def) (simp add: two_slices [OF l1 l2 in_range])
  then show ?thesis
    by (simp add: sm algebra_simps)
qed

section \<open>The loop when every day has its own boundaries\<close>

lemma session_minutes_utc_row:
  "session_minutes (utc_row t) =
     map (\<lambda>k. t + 91 * NANOS_IN_MINUTE + int k * NANOS_IN_MINUTE) [0..<120] @
     map (\<lambda>k. t + 301 * NANOS_IN_MINUTE + int k * NANOS_IN_MINUTE) [0..<120]"
proof -
  have "arange (t + 91 * NANOS_IN_MINUTE)
          (t + 91 * NANOS_IN_MINUTE + 120 * NANOS_IN_MINUTE) NANOS_IN_MINUTE =
        map (\<lambda>k. t + 91 * NANOS_IN_MINUTE + int k * NANOS_IN_MINUTE) [0..<nat 120]"
    by (rule arange_eq [OF NANOS_IN_MINUTE_pos])
  moreover have "arange (t + 301 * NANOS_IN_MINUTE)
          (t + 301 * NANOS_IN_MINUTE + 120 * NANOS_IN_MINUTE) NANOS_IN_MINUTE =
        map (\<lambda>k. t + 301 * NANOS_IN_MINUTE + int k * NANOS_IN_MINUTE) [0..<nat 120]"
    by (rule arange_eq [OF NANOS_IN_MINUTE_pos])
  moreover have "t + 210 * NANOS_IN_MINUTE + NANOS_IN_MINUTE =
                 t + 91 * NANOS_IN_MINUTE + 120 * NANOS_IN_MINUTE"
    "t + 420 * NANOS_IN_MINUTE + NANOS_IN_MINUTE =
     t + 301 * NANOS_IN_MINUTE + 120 * NANOS_IN_MINUTE"
    by simp_all
  ultimately show ?thesis
    by (simp add: session_minutes_def utc_row_def)
qed

lemma length_session_minutes_utc_row: "length (session_minutes (utc_row t)) = 240"
  by (simp add: session_minutes_utc_row)

lemma fill_loop_same_dates:
  assumes h: "holds_days cal a a"
  shows "i + k = length a \<Longrightarrow> length arr = 240 * length a \<Longrightarrow>
         fill_loop
           (fill_day cal (map2 (\<lambda>x y. (x - y) * 1440 + 120) a a)
              (map2 (\<lambda>x y. (y - x) * 1440 + 120) a a))
           (enumerate i (replicate k 240)) (240 * int i, arr) =
         Inr (240 * int (length a),
              take (240 * i) arr @
              concat (map (\<lambda>x. session_minutes (utc_row (Timestamp x))) (drop i a)))"
proof (induction k arbitrary: i arr)
  case 0
  then show ?case by simp
next
  case (Suc k)
  define body where "body = fill_day cal (map2 (\<lambda>x y. (x - y) * 1440 + 120) a a)
              (map2 (\<lambda>x y. (y - x) * 1440 + 120) a a)"
  define sm where "sm = session_minutes (utc_row (Timestamp (a ! i)))"
  define arr' where "arr' = take (240 * i) arr @ sm @ drop (240 * Suc i) arr"
  define rest where
    "rest = concat (map (\<lambda>x. session_minutes (utc_row (Timestamp x))) (drop (Suc i) a))"
  from Suc.prems have i: "i < length a"
    by simp
  have lsm: "length sm = 240"
    by (simp add: sm_def length_session_minutes_utc_row)
  have step: "body i 240 (240 * int i, arr) = Inr (240 * int (Suc i), arr')"
    unfolding body_def arr'_def sm_def
    using h i Suc.prems(2) by (intro fill_day_same_date) simp_all
  have len': "length arr' = 240 * length a"
    using i Suc.prems(2) by (simp add: arr'_def lsm)
  have tk: "take (240 * Suc i) arr' = take (240 * i) arr @ sm"
    using i Suc.prems(2) by (simp add: arr'_def lsm)
  have dr: "concat (map (\<lambda>x. session_minutes (utc_row (Timestamp x))) (drop i a)) = sm @ rest"
    using i by (simp add: Cons_nth_drop_Suc [symmetric] sm_def rest_def)
  from Suc.prems have "Suc i + k = length a"
    by simp
  from Suc.IH [OF this len']
  have ih: "fill_loop body (enumerate (Suc i) (replicate k 240)) (240 * int (Suc i), arr') =
            Inr (240 * int (length a), take (240 * Suc i) arr' @ rest)"
    by (simp only: body_def rest_def)
  have "fill_loop body (enumerate i (replicate (Suc k) 240)) (240 * int i, arr) =
        fill_loop body (enumerate (Suc i) (replicate k 240)) (240 * int (Suc i), arr')"
    by (simp add: step del: of_nat_Suc)
  also have "\<dots> = Inr (240 * int (length a), take (240 * i) arr @ sm @ rest)"
    by (simp only: ih tk append_assoc)
  finally show ?case
    by (simp only: body_def dr)
qed

lemma sum_list_replicate_int: "sum_list (replicate n (c::int)) = int n * c"
  by (induction n) (simp_all add: algebra_simps)

lemma all_minutes_same_dates:
  assumes h: "holds_days cal a a"
  shows "all_minutes cal mem =
           Inr (concat (map (\<lambda>x. session_minutes (utc_row (Timestamp x))) a))"
proof -
  let ?arr = "map mem [0..<nat (int (length a) * 240)]"
  have total: "np_empty (sum_list (replicate (length a) 240)) mem = Inr ?arr"
    by (simp add: np_empty_def sum_list_replicate_int)
  have "length ?arr = 240 * length a"
    by (simp add: nat_mult_distrib)
  then have "fill_loop
           (fill_day cal (map2 (\<lambda>x y. (x - y) * 1440 + 120) a a)
              (map2 (\<lambda>x y. (y - x) * 1440 + 120) a a))
           (enumerate 0 (replicate (length a) 240)) (240 * int 0, ?arr) =
         Inr (240 * int (length a),
              take (240 * 0) ?arr @
              concat (map (\<lambda>x. session_minutes (utc_row (Timestamp x))) (drop 0 a)))"
    by (intro fill_loop_same_dates [OF h]) simp_all
  then show ?thesis
    using holds_days_sizes [OF h] total by (simp add: all_minutes_def)
qed

section \<open>The loop when a day has the boundaries of another date\<close>

lemma fill_loop_fails_at:
  assumes step: "\<And>j sz st st'. sz \<in> set sizes \<Longrightarrow> I j st \<Longrightarrow> body j sz st = Inr st' \<Longrightarrow>
                   I (Suc j) st'"
    and fail: "\<And>sz st. sz \<in> set sizes \<Longrightarrow> I (i + j) st \<Longrightarrow> \<exists>e. body (i + j) sz st = Inl e"
    and j: "j < length sizes" and inv: "I i st"
  shows "\<exists>e. fill_loop body (enumerate i sizes) st = Inl e"
  using assms
proof (induction sizes arbitrary: i j st)
  case Nil
  then show ?case by simp
next
  case (Cons sz rest)
  show ?case
  proof (cases "body i sz st")
    case (Inl e)
    then show ?thesis by simp
  next
    case (Inr st')
    show ?thesis
    proof (cases j)
      case 0
      with Cons.prems(2) [of sz st] Cons.prems(4) Inr show ?thesis
        by simp
    next
      case (Suc j')
      have inv': "I (Suc i) st'"
        using Cons.prems(1) [of sz i st st'] Cons.prems(4) Inr by simp
      have "\<exists>e. fill_loop body (enumerate (Suc i) rest) st' = Inl e"
      proof (rule Cons.IH [of "Suc i" j' st'])
        show "\<And>j sz st st'. sz \<in> set rest \<Longrightarrow> I j st \<Longrightarrow> body j sz st = Inr st' \<Longrightarrow>
                I (Suc j) st'"
          using Cons.prems(1) by (meson list.set_intros(2))
        show "\<And>sz st. sz \<in> set rest \<Longrightarrow> I (Suc i + j') st \<Longrightarrow>
                \<exists>e. body (Suc i + j') sz st = Inl e"
          using Cons.prems(2) [of _ _] Suc by (metis add_Suc_shift list.set_intros(2))
        show "j' < length rest"
          using Cons.prems(3) Suc by simp
        show "I (Suc i) st'"
          by (rule inv')
      qed
      with Inr show ?thesis by simp
    qed
  qed
qed

lemma fill_day_state:
  assumes "fill_day cal bs afs i sz (idx, arr) = Inr st"
  shows "fst st = idx + sz \<and> length (snd st) = length arr"
  using assms
  by (auto simp: fill_day_def split: sum.splits dest!: set_slice_length)

lemma fill_day_index_error:
  assumes "length (opens cal) \<le> i"
  shows "\<exists>e. fill_day cal bs afs i sz st = Inl e"
  using assms by (cases st) (auto simp: fill_day_def item_out split: sum.splits)

lemma set_slice_too_long:
  assumes "0 \<le> lo" "lo \<le> int (length arr)" "int (length arr) - lo < int (length v)"
    "length v \<noteq> 1"
  shows "set_slice arr lo hi v = Inl ValueError"
proof -
  have "slice_bound (length arr) lo = nat lo"
    using assms by (simp add: slice_bound_inside)
  moreover have "max (nat lo) (slice_bound (length arr) hi) \<le> length arr"
    using assms slice_bound_le [of "length arr" hi] by simp
  ultimately have "length v \<noteq> max (slice_bound (length arr) lo) (slice_bound (length arr) hi)
                          - slice_bound (length arr) lo"
    using assms by linarith
  then show ?thesis
    using assms(4) by (rule set_slice_mismatch)
qed

lemma set_slice_stop_small:
  assumes "0 \<le> hi" "nat hi < length v" "length v \<noteq> 1"
  shows "set_slice arr lo hi v = Inl ValueError"
proof -
  have "slice_bound (length arr) hi \<le> nat hi"
    using assms by (simp add: slice_bound_def)
  then have "max (slice_bound (length arr) lo) (slice_bound (length arr) hi)
               - slice_bound (length arr) lo \<le> nat hi"
    by linarith
  then have "length v \<noteq> max (slice_bound (length arr) lo) (slice_bound (length arr) hi)
                          - slice_bound (length arr) lo"
    using assms by linarith
  then show ?thesis
    using assms(3) by (rule set_slice_mismatch)
qed

lemma set_slice_nil:
  assumes "set_slice arr lo hi [] = Inr m"
  shows "m = arr"
proof -
  let ?l = "slice_bound (length arr) lo"
  let ?h = "max ?l (slice_bound (length arr) hi)"
  from assms have "?h - ?l = 0" and "m = take ?l arr @ drop ?h arr"
    by (auto simp: set_slice_def Let_def split: if_splits)
  moreover have "?l \<le> ?h" by simp
  ultimately have "?h = ?l" by linarith
  with \<open>m = take ?l arr @ drop ?h arr\<close> show ?thesis
    by simp
qed

text \<open>
  The last day, when its lunch break belongs to a later date than its open: the minutes
  before lunch are more than the rest of the array.
\<close>

lemma fill_day_later_date:
  assumes h: "holds_days cal a d" and len: "length a = length d" and n: "length a = Suc n"
    and later: "d ! n < a ! n" and arr: "length arr = 240 * length a"
  shows "fill_day cal (map2 (\<lambda>x y. (x - y) * 1440 + 120) a d)
           (map2 (\<lambda>x y. (y - x) * 1440 + 120) a d) n 240 (240 * int n, arr) = Inl ValueError"
proof -
  define k where "k = a ! n - d ! n"
  define v1 where "v1 = arange (Timestamp (d ! n) + 91 * NANOS_IN_MINUTE)
               (Timestamp (d ! n) + 91 * NANOS_IN_MINUTE + (k * 1440 + 120) * NANOS_IN_MINUTE)
               NANOS_IN_MINUTE"
  have k: "1 \<le> k"
    using later by (simp add: k_def)
  have "length v1 = nat (k * 1440 + 120)"
    unfolding v1_def by (rule arange_length [OF NANOS_IN_MINUTE_pos])
  with k have lv: "1560 \<le> int (length v1)"
    by simp
  have "set_slice arr (240 * int n) (240 * int n + (k * 1440 + 120)) v1 = Inl ValueError"
    using lv arr n by (intro set_slice_too_long) simp_all
  moreover have "n < length a"
    using n by simp
  ultimately show ?thesis
    unfolding fill_day_unfold [OF h len \<open>n < length a\<close> k_def]
    by (fold v1_def) simp
qed

text \<open>
  The first day, when its lunch break belongs to an earlier date than its open: the
  minutes after lunch are more than the 240 the slice can hold.
\<close>

lemma fill_day_earlier_date:
  assumes h: "holds_days cal a d" and len: "length a = length d" and n: "0 < length a"
    and earlier: "a ! 0 < d ! 0"
  shows "\<exists>e. fill_day cal (map2 (\<lambda>x y. (x - y) * 1440 + 120) a d)
           (map2 (\<lambda>x y. (y - x) * 1440 + 120) a d) 0 240 (0, arr) = Inl e"
proof -
  define k where "k = a ! 0 - d ! 0"
  define v1 where "v1 = arange (Timestamp (d ! 0) + 91 * NANOS_IN_MINUTE)
               (Timestamp (d ! 0) + 91 * NANOS_IN_MINUTE + (k * 1440 + 120) * NANOS_IN_MINUTE)
               NANOS_IN_MINUTE"
  define v2 where "v2 = arange (Timestamp (a ! 0) + 301 * NANOS_IN_MINUTE)
               (Timestamp (a ! 0) + 301 * NANOS_IN_MINUTE + (120 - k * 1440) * NANOS_IN_MINUTE)
               NANOS_IN_MINUTE"
  have k: "k \<le> - 1"
    using earlier by (simp add: k_def)
  have "length v1 = nat (k * 1440 + 120)"
    unfolding v1_def by (rule arange_length [OF NANOS_IN_MINUTE_pos])
  with k have v1: "v1 = []"
    by simp
  have "length v2 = nat (120 - k * 1440)"
    unfolding v2_def by (rule arange_length [OF NANOS_IN_MINUTE_pos])
  with k have lv: "1560 \<le> int (length v2)"
    by simp
  have second: "set_slice m (0 + (k * 1440 + 120)) (0 + 240) v2 = Inl ValueError" for m
    using lv by (intro set_slice_stop_small) simp_all
  have "\<exists>e. (case set_slice arr 0 (0 + (k * 1440 + 120)) v1 of
               Inl e \<Rightarrow> Inl e
             | Inr m1 \<Rightarrow>
                 (case set_slice m1 (0 + (k * 1440 + 120)) (0 + 240) v2 of
                    Inl e \<Rightarrow> Inl e
                  | Inr m2 \<Rightarrow> Inr (0 + 240, m2))) = Inl e"
    by (cases "set_slice arr 0 (0 + (k * 1440 + 120)) v1") (simp_all only: second sum.case, simp_all)
  then show ?thesis
    unfolding fill_day_unfold [OF h len n k_def]
    by (fold v1_def v2_def)
qed

section \<open>Two ranges with the same number of trading days\<close>

lemma sorted_between:
  assumes "sorted (xs::int list)" "x \<in> set xs"
  shows "xs ! 0 \<le> x \<and> x \<le> xs ! (length xs - 1)"
proof -
  from assms(2) obtain i where i: "i < length xs" "x = xs ! i"
    by (auto simp: in_set_conv_nth)
  then have "xs ! 0 \<le> xs ! i" "xs ! i \<le> xs ! (length xs - 1)"
    using assms(1) by (auto intro!: sorted_nth_mono)
  with i show ?thesis by simp
qed

lemma filter_upto_differ:
  fixes s e s' e' :: int and P :: "int \<Rightarrow> bool"
  defines "a \<equiv> filter P [s..e]" and "d \<equiv> filter P [s'..e']"
  assumes len: "length a = length d" and ne: "a \<noteq> d"
  shows "0 < length a \<and> (a ! 0 < d ! 0 \<or> d ! (length a - 1) < a ! (length a - 1))"
proof -
  have sa: "sorted a" "distinct a" and sd: "sorted d" "distinct d"
    by (simp_all add: a_def d_def sorted_wrt_filter)
  from len ne have pos: "0 < length a"
    by (cases a; cases d) auto
  have "a ! 0 < d ! 0 \<or> d ! (length a - 1) < a ! (length a - 1)"
  proof (rule ccontr)
    assume "\<not> ?thesis"
    then have lo: "d ! 0 \<le> a ! 0" and hi: "a ! (length a - 1) \<le> d ! (length d - 1)"
      using len by simp_all
    have d0: "d ! 0 \<in> set d" and dn: "d ! (length d - 1) \<in> set d"
      using pos len by simp_all
    then have b: "s' \<le> d ! 0" "d ! (length d - 1) \<le> e'"
      by (simp_all add: d_def)
    have "set a \<subseteq> set d"
    proof
      fix x assume x: "x \<in> set a"
      then have "P x" by (simp add: a_def)
      moreover from sorted_between [OF sa(1) x] lo hi b have "s' \<le> x" "x \<le> e'"
        by simp_all
      ultimately show "x \<in> set d"
        by (simp add: d_def)
    qed
    moreover have "card (set a) = card (set d)"
      using sa sd len by (simp add: distinct_card)
    ultimately have "set a = set d"
      by (intro card_subset_eq) simp_all
    with sa sd have "a = d"
      by (intro sorted_distinct_set_unique)
    with ne show False by simp
  qed
  with pos show ?thesis by simp
qed

lemma all_minutes_needs_same_dates:
  fixes s e s' e' :: int
  assumes h: "holds_days cal (filter P [s..e]) (filter P [s'..e'])"
    and len: "length (filter P [s..e]) = length (filter P [s'..e'])"
    and g: "all_minutes cal mem = Inr g"
  shows "filter P [s..e] = filter P [s'..e']"
proof (rule ccontr)
  define a where "a = filter P [s..e]"
  define d where "d = filter P [s'..e']"
  define body where "body = fill_day cal (map2 (\<lambda>x y. (x - y) * 1440 + 120) a d)
              (map2 (\<lambda>x y. (y - x) * 1440 + 120) a d)"
  define arr where "arr = map mem [0..<nat (int (length a) * 240)]"
  assume "filter P [s..e] \<noteq> filter P [s'..e']"
  from filter_upto_differ [OF len this]
  have pos: "0 < length a" and
    cases: "a ! 0 < d ! 0 \<or> d ! (length a - 1) < a ! (length a - 1)"
    by (simp_all add: a_def d_def)
  from h len have h': "holds_days cal a d" and len': "length a = length d"
    by (simp_all add: a_def d_def)
  have larr: "length arr = 240 * length a"
    by (simp add: arr_def nat_mult_distrib)
  have total: "np_empty (sum_list (replicate (length a) 240)) mem = Inr arr"
    by (simp add: np_empty_def sum_list_replicate_int arr_def)
  have "\<exists>err. fill_loop body (enumerate 0 (replicate (length a) 240)) (0, arr) = Inl err"
    using cases
  proof
    assume "a ! 0 < d ! 0"
    from fill_day_earlier_date [OF h' len' pos this, of arr]
    obtain err where "body 0 240 (0, arr) = Inl err"
      by (auto simp: body_def)
    moreover obtain n where "length a = Suc n"
      using pos by (cases "length a") auto
    ultimately show ?thesis
      by simp
  next
    assume later: "d ! (length a - 1) < a ! (length a - 1)"
    obtain n where n: "length a = Suc n"
      using pos by (cases "length a") auto
    show ?thesis
    proof (rule fill_loop_fails_at
        [where I = "\<lambda>j st. fst st = 240 * int j \<and> length (snd st) = 240 * length a"
           and j = n])
      show "fst st' = 240 * int (Suc j) \<and> length (snd st') = 240 * length a"
        if "sz \<in> set (replicate (length a) 240)"
          "fst st = 240 * int j \<and> length (snd st) = 240 * length a"
          "body j sz st = Inr st'" for j sz st st'
      proof -
        obtain idx ar where st: "st = (idx, ar)"
          by (cases st)
        from that(3) have "fst st' = idx + sz \<and> length (snd st') = length ar"
          unfolding body_def st by (rule fill_day_state)
        with that(1,2) st show ?thesis
          by auto
      qed
      show "\<exists>e. body (0 + n) sz st = Inl e"
        if "sz \<in> set (replicate (length a) 240)"
          "fst st = 240 * int (0 + n) \<and> length (snd st) = 240 * length a" for sz st
      proof -
        from that have "sz = 240" "st = (240 * int n, snd st)"
          by (auto simp: prod_eq_iff)
        moreover have "fill_day cal (map2 (\<lambda>x y. (x - y) * 1440 + 120) a d)
           (map2 (\<lambda>x y. (y - x) * 1440 + 120) a d) n 240 (240 * int n, snd st) = Inl ValueError"
          using later that(2) n by (intro fill_day_later_date [OF h' len']) simp_all
        ultimately show ?thesis
          by (metis add_0 body_def)
      qed
      show "n < length (replicate (length a) 240)"
        using n by simp
      show "fst (0, arr) = 240 * int 0 \<and> length (snd (0, arr)) = 240 * length a"
        using larr by simp
    qed
  qed
  then obtain err where "all_minutes cal mem = Inl err"
    using holds_days_sizes [OF h' len'] total
    by (auto simp: all_minutes_def body_def)
  with g show False by simp
qed

section \<open>What the constructor returns\<close>

text \<open>\<open>all_minutes\<close> reads nothing of the object but the four arrays.\<close>

lemma all_minutes_fields:
  assumes "opens x = opens y" "closes x = closes y"
    "lunch_break_starts x = lunch_break_starts y" "lunch_break_ends x = lunch_break_ends y"
  shows "all_minutes x mem = all_minutes y mem"
  unfolding all_minutes_def daily_sizes_def daily_before_lunch_sizes_def
    daily_after_lunch_sizes_def deltas_before_lunch_def deltas_after_lunch_def fill_day_def
    assms
  by (rule refl)

lemma SHSZ_unfold:
  "SHSZExchangeCalendar today cached mem0 start end =
     (case all_minutes
             \<lparr>opens = map (\<lambda>d. d + 91 * NANOS_IN_MINUTE)
                  (date_range start_default (end_default today) (day (adhoc_holidays cached))),
               closes = map (\<lambda>d. d + 420 * NANOS_IN_MINUTE)
                  (date_range start_default (end_default today) (day (adhoc_holidays cached))),
               lunch_break_starts = map (\<lambda>d. d + 210 * NANOS_IN_MINUTE)
                  (date_range start end (day (adhoc_holidays cached))),
               lunch_break_ends = map (\<lambda>d. d + 301 * NANOS_IN_MINUTE)
                  (date_range start end (day (adhoc_holidays cached)))\<rparr> mem0 of
        Inl e \<Rightarrow> Inl e
      | Inr grid \<Rightarrow>
     (if date_range start_default (end_default today) (day (adhoc_holidays cached)) = []
      then Inl IndexError
      else
     (case DataFrame (date_range start end (day (adhoc_holidays cached)))
             (map (\<lambda>d. d + 91 * NANOS_IN_MINUTE)
                (date_range start_default (end_default today) (day (adhoc_holidays cached))))
             (map (\<lambda>d. d + 420 * NANOS_IN_MINUTE)
                (date_range start_default (end_default today) (day (adhoc_holidays cached))))
             (map (\<lambda>d. d + 210 * NANOS_IN_MINUTE)
                (date_range start end (day (adhoc_holidays cached))))
             (map (\<lambda>d. d + 301 * NANOS_IN_MINUTE)
                (date_range start end (day (adhoc_holidays cached)))) of
        Inl e \<Rightarrow> Inl e
      | Inr sched \<Rightarrow>
          Inr \<lparr>opens = map (\<lambda>d. d + 91 * NANOS_IN_MINUTE)
                  (date_range start_default (end_default today) (day (adhoc_holidays cached))),
               closes = map (\<lambda>d. d + 420 * NANOS_IN_MINUTE)
                  (date_range start_default (end_default today) (day (adhoc_holidays cached))),
               lunch_break_starts = map (\<lambda>d. d + 210 * NANOS_IN_MINUTE)
                  (date_range start end (day (adhoc_holidays cached))),
               lunch_break_ends = map (\<lambda>d. d + 301 * NANOS_IN_MINUTE)
                  (date_range start end (day (adhoc_holidays cached))),
               schedule = sched\<rparr>)))"
  by (simp add: SHSZExchangeCalendar_def Let_def days_at_lunch_start days_at_lunch_end
      TradingCalendar_init_eq split: sum.splits)

lemma SHSZ_fields:
  assumes "SHSZExchangeCalendar today cached mem0 start end = Inr cal"
  shows "opens cal = map (\<lambda>d. d + 91 * NANOS_IN_MINUTE)
           (date_range start_default (end_default today) (day (adhoc_holidays cached)))"
    and "closes cal = map (\<lambda>d. d + 420 * NANOS_IN_MINUTE)
           (date_range start_default (end_default today) (day (adhoc_holidays cached)))"
    and "lunch_break_starts cal = map (\<lambda>d. d + 210 * NANOS_IN_MINUTE)
           (date_range start end (day (adhoc_holidays cached)))"
    and "lunch_break_ends cal = map (\<lambda>d. d + 301 * NANOS_IN_MINUTE)
           (date_range start end (day (adhoc_holidays cached)))"
    and "DataFrame (date_range start end (day (adhoc_holidays cached)))
           (opens cal) (closes cal) (lunch_break_starts cal) (lunch_break_ends cal) =
         Inr (schedule cal)"
    and "date_range start_default (end_default today) (day (adhoc_holidays cached)) \<noteq> []"
  using assms by (auto simp: SHSZ_unfold split: sum.splits if_splits)

text \<open>
  The base class has evaluated \<open>all_minutes\<close> on the arrays of every constructed
  calendar, and it returned.
\<close>

lemma SHSZ_minutes_return:
  assumes c: "SHSZExchangeCalendar today cached mem0 start end = Inr cal"
  shows "\<exists>g. all_minutes cal mem0 = Inr g"
proof -
  let ?pre = "\<lparr>opens = map (\<lambda>d. d + 91 * NANOS_IN_MINUTE)
                  (date_range start_default (end_default today) (day (adhoc_holidays cached))),
               closes = map (\<lambda>d. d + 420 * NANOS_IN_MINUTE)
                  (date_range start_default (end_default today) (day (adhoc_holidays cached))),
               lunch_break_starts = map (\<lambda>d. d + 210 * NANOS_IN_MINUTE)
                  (date_range start end (day (adhoc_holidays cached))),
               lunch_break_ends = map (\<lambda>d. d + 301 * NANOS_IN_MINUTE)
                  (date_range start end (day (adhoc_holidays cached)))\<rparr>"
  from c obtain g where "all_minutes ?pre mem0 = Inr g"
    by (auto simp: SHSZ_unfold split: sum.splits if_splits)
  moreover have "all_minutes cal mem0 = all_minutes ?pre mem0"
    by (rule all_minutes_fields) (simp_all add: SHSZ_fields(1-4) [OF c])
  ultimately show ?thesis
    by simp
qed

lemma SHSZ_sessions:
  assumes "SHSZExchangeCalendar today cached mem0 start end = Inr cal"
  shows "all_sessions cal = date_range start end (day (adhoc_holidays cached))"
  using SHSZ_fields(5) [OF assms] by (simp add: all_sessions_def DataFrame_index)

lemma SHSZ_holds_days:
  assumes "SHSZExchangeCalendar today cached mem0 start end = Inr cal"
  shows "holds_days cal (filter (day (adhoc_holidays cached)) [start..end])
           (filter (day (adhoc_holidays cached)) [start_default..end_default today])"
  using SHSZ_fields(1-4) [OF assms] by (simp add: holds_days_def date_range_def)

lemma DataFrame_lengths:
  assumes "DataFrame idx mo mc lbs lbe = Inr sched"
  shows "(length mo = length idx \<or> length mo = 1) \<and> length sched = length idx"
  using assms by (auto simp: DataFrame_def column_Inr split: sum.splits)

lemma SHSZ_lengths:
  assumes "SHSZExchangeCalendar today cached mem0 start end = Inr cal"
  shows "length (filter (day (adhoc_holidays cached)) [start_default..end_default today]) =
           length (filter (day (adhoc_holidays cached)) [start..end]) \<or>
         length (filter (day (adhoc_holidays cached)) [start_default..end_default today]) = 1"
    and "length (schedule cal) = length (filter (day (adhoc_holidays cached)) [start..end])"
  using DataFrame_lengths [OF SHSZ_fields(5) [OF assms]] SHSZ_fields(1) [OF assms]
  by (simp_all add: date_range_def)

text \<open>
  One trading day in the default range and several in the range of the arguments: the
  loop reads \<open>opens\<close> beyond its only element.
\<close>

lemma all_minutes_index_error:
  assumes h: "holds_days cal a d" and d: "length d = 1" and a: "2 \<le> length a"
  shows "\<exists>e. all_minutes cal mem = Inl e"
proof -
  from h d a obtain bs where bs: "daily_before_lunch_sizes cal = Inr bs" "length bs = length a"
    by (auto simp: holds_days_def daily_before_lunch_sizes_def deltas_before_lunch_def
        broadcast_def)
  from h d a obtain afs where afs: "daily_after_lunch_sizes cal = Inr afs" "length afs = length a"
    by (auto simp: holds_days_def daily_after_lunch_sizes_def deltas_after_lunch_def
        broadcast_def)
  from bs afs have sizes: "daily_sizes cal = Inr (map2 (+) bs afs)"
    by (simp add: daily_sizes_def broadcast_def)
  have loop: "\<exists>e. fill_loop (fill_day cal bs afs) (enumerate 0 (map2 (+) bs afs)) st = Inl e"
    for st
  proof (rule fill_loop_fails_at [where I = "\<lambda>j st. True" and j = 1])
    show "\<exists>e. fill_day cal bs afs (0 + 1) sz st = Inl e" for sz st
      using h d by (intro fill_day_index_error) (simp add: holds_days_def)
    show "1 < length (map2 (+) bs afs)"
      using bs afs a by simp
  qed simp_all
  show ?thesis
  proof (cases "np_empty (sum_list (map2 (+) bs afs)) mem")
    case (Inl e)
    with bs afs sizes show ?thesis
      by (simp add: all_minutes_def)
  next
    case (Inr arr)
    from loop [of "(0, arr)"] obtain e where
      "fill_loop (fill_day cal bs afs) (enumerate 0 (map2 (+) bs afs)) (0, arr) = Inl e"
      by blast
    with Inr bs afs sizes show ?thesis
      by (simp add: all_minutes_def)
  qed
qed

lemma all_minutes_no_days:
  assumes h: "holds_days cal [] d" and d: "length d = 1"
  shows "all_minutes cal mem = Inr []"
proof -
  from h d have "daily_before_lunch_sizes cal = Inr []" "daily_after_lunch_sizes cal = Inr []"
    by (simp_all add: holds_days_def daily_before_lunch_sizes_def deltas_before_lunch_def
        daily_after_lunch_sizes_def deltas_after_lunch_def broadcast_def)
  then show ?thesis
    by (simp add: all_minutes_def daily_sizes_def broadcast_def np_empty_def)
qed

text \<open>
  The arguments of a constructed calendar select the trading days of the default range;
  or they select none, and the default range has one trading day.
\<close>

lemma constructed_days:
  assumes c: "SHSZExchangeCalendar today cached mem0 start end = Inr cal"
  shows "filter (day (adhoc_holidays cached)) [start..end] =
           filter (day (adhoc_holidays cached)) [start_default..end_default today] \<or>
         filter (day (adhoc_holidays cached)) [start..end] = [] \<and>
           length (filter (day (adhoc_holidays cached)) [start_default..end_default today]) = 1"
proof -
  define a where "a = filter (day (adhoc_holidays cached)) [start..end]"
  define d where "d = filter (day (adhoc_holidays cached)) [start_default..end_default today]"
  from SHSZ_minutes_return [OF c] obtain g where g: "all_minutes cal mem0 = Inr g"
    by blast
  have h: "holds_days cal a d"
    unfolding a_def d_def by (rule SHSZ_holds_days [OF c])
  from SHSZ_lengths(1) [OF c] have "length a = length d \<or> length d = 1"
    by (auto simp: a_def d_def)
  then have "a = d \<or> a = [] \<and> length d = 1"
  proof (cases "length a = length d")
    case True
    with h g have "a = d"
      unfolding a_def d_def by (intro all_minutes_needs_same_dates)
    then show ?thesis
      by simp
  next
    case False
    moreover assume "length a = length d \<or> length d = 1"
    ultimately have d1: "length d = 1"
      by simp
    have "\<not> 2 \<le> length a"
      using all_minutes_index_error [OF h d1, of mem0] g by auto
    with False d1 have "length a = 0"
      by linarith
    with d1 show ?thesis
      by simp
  qed
  then show ?thesis
    by (simp only: a_def d_def)
qed

text \<open>
  Every row of the schedule of a constructed calendar is the row of its own day, and
  \<open>all_minutes\<close> returns the minutes of the rows in order, whatever the memory held.
\<close>

lemma constructed:
  assumes c: "SHSZExchangeCalendar today cached mem0 start end = Inr cal"
  shows "schedule cal = map utc_row (all_sessions cal)"
    and "all_minutes cal mem = Inr (concat (map session_minutes (schedule cal)))"
proof -
  define a where "a = filter (day (adhoc_holidays cached)) [start..end]"
  define d where "d = filter (day (adhoc_holidays cached)) [start_default..end_default today]"
  note f = SHSZ_fields [OF c]
  have h: "holds_days cal a d"
    unfolding a_def d_def by (rule SHSZ_holds_days [OF c])
  have sess: "all_sessions cal = map Timestamp a"
    by (simp add: SHSZ_sessions [OF c] date_range_def a_def)
  have ls: "length (schedule cal) = length a"
    by (simp add: SHSZ_lengths(2) [OF c] a_def)
  from constructed_days [OF c] have "a = d \<or> a = [] \<and> length d = 1"
    by (simp only: a_def d_def)
  then have "schedule cal = map utc_row (all_sessions cal) \<and>
             all_minutes cal mem = Inr (concat (map session_minutes (schedule cal)))"
  proof
    assume ad: "a = d"
    then have same: "date_range start_default (end_default today) (day (adhoc_holidays cached)) =
        date_range start end (day (adhoc_holidays cached))"
      by (simp add: date_range_def a_def d_def)
    from f(5) have "schedule cal = map utc_row (date_range start end (day (adhoc_holidays cached)))"
      by (simp add: f(1-4) same DataFrame_utc_rows)
    then have rows: "schedule cal = map utc_row (map Timestamp a)"
      by (simp add: date_range_def a_def)
    from h ad have "all_minutes cal mem =
        Inr (concat (map (\<lambda>x. session_minutes (utc_row (Timestamp x))) a))"
      by (intro all_minutes_same_dates) simp
    with rows sess show ?thesis
      by (simp add: comp_def)
  next
    assume "a = [] \<and> length d = 1"
    with h ls sess show ?thesis
      by (simp add: all_minutes_no_days)
  qed
  then show "schedule cal = map utc_row (all_sessions cal)"
    and "all_minutes cal mem = Inr (concat (map session_minutes (schedule cal)))"
    by simp_all
qed

section \<open>Arguments and the default range\<close>

lemma filter_upto_first:
  fixes s e :: int
  assumes "s \<le> e" "f s"
  shows "filter f [s..e] = s # filter f [s + 1..e]"
  using assms by (simp add: upto_rec1 [of s e])

lemma filter_upto_last:
  fixes s e :: int
  assumes "s \<le> e + 1" "f (e + 1)"
  shows "filter f [s..e + 1] = filter f [s..e] @ [e + 1]"
  using assms upto_rec2 [of s "e + 1"] by simp

lemma filter_upto_skip_last:
  fixes s e e' :: int
  assumes "s \<le> e'" "e' = e + 1" "\<not> f e'"
  shows "filter f [s..e'] = filter f [s..e]"
  using assms upto_rec2 [of s "e + 1"] by simp

lemma filter_upto_shift_length:
  fixes s e :: int
  assumes "s \<le> e" "f s" "f (e + 1)"
  shows "length (filter f [s + 1..e + 1]) = length (filter f [s..e])"
  using assms by (simp add: filter_upto_first filter_upto_last)

lemma filter_upto_two:
  fixes s e :: int
  assumes "s + 1 \<le> e" "f s" "f (s + 1)"
  shows "2 \<le> length (filter f [s..e])"
proof -
  have "filter f [s..e] = s # (s + 1) # filter f [s + 1 + 1..e]"
    using assms by (simp add: filter_upto_first)
  then show ?thesis by simp
qed

lemma day_no_holidays: "day (adhoc_holidays []) d \<longleftrightarrow> weekday d < SATURDAY"
  by (simp add: day_def adhoc_holidays_def)

lemma date_range_not_empty:
  assumes "s \<le> e" "f s"
  shows "date_range s e f \<noteq> []"
  using assms by (simp add: date_range_def filter_upto_first)

text \<open>1990-12-19 was a Wednesday: the default range has a trading day unless it is a holiday.\<close>

lemma default_range_not_empty:
  assumes "start_default \<le> end_default today" "start_default \<notin> set cached"
  shows "date_range start_default (end_default today) (day (adhoc_holidays cached)) \<noteq> []"
proof -
  have "day (adhoc_holidays cached) start_default"
    using assms(2)
    by (simp add: day_iff start_default_eq weekday_def THURSDAY_def SATURDAY_def SUNDAY_def)
  with assms(1) show ?thesis
    by (rule date_range_not_empty)
qed

text \<open>
  When the arguments select the days of the default range, and there is such a day, the
  calendar is constructed and every row is the row of its own day.
\<close>

lemma SHSZ_same_days:
  assumes same: "date_range start end (day (adhoc_holidays cached)) =
                 date_range start_default (end_default today) (day (adhoc_holidays cached))"
    and ne: "date_range start_default (end_default today) (day (adhoc_holidays cached)) \<noteq> []"
  shows "SHSZExchangeCalendar today cached mem0 start end =
           Inr \<lparr>opens = map (\<lambda>d. d + 91 * NANOS_IN_MINUTE)
                   (date_range start end (day (adhoc_holidays cached))),
                closes = map (\<lambda>d. d + 420 * NANOS_IN_MINUTE)
                   (date_range start end (day (adhoc_holidays cached))),
                lunch_break_starts = map (\<lambda>d. d + 210 * NANOS_IN_MINUTE)
                   (date_range start end (day (adhoc_holidays cached))),
                lunch_break_ends = map (\<lambda>d. d + 301 * NANOS_IN_MINUTE)
                   (date_range start end (day (adhoc_holidays cached))),
                schedule = map utc_row (date_range start end (day (adhoc_holidays cached)))\<rparr>"
proof -
  let ?pre = "\<lparr>opens = map (\<lambda>d. d + 91 * NANOS_IN_MINUTE)
                   (date_range start end (day (adhoc_holidays cached))),
                closes = map (\<lambda>d. d + 420 * NANOS_IN_MINUTE)
                   (date_range start end (day (adhoc_holidays cached))),
                lunch_break_starts = map (\<lambda>d. d + 210 * NANOS_IN_MINUTE)
                   (date_range start end (day (adhoc_holidays cached))),
                lunch_break_ends = map (\<lambda>d. d + 301 * NANOS_IN_MINUTE)
                   (date_range start end (day (adhoc_holidays cached)))\<rparr>"
  have "holds_days ?pre (filter (day (adhoc_holidays cached)) [start..end])
          (filter (day (adhoc_holidays cached)) [start..end])"
    by (simp add: holds_days_def date_range_def)
  from all_minutes_same_dates [OF this, of mem0] obtain g where
    "all_minutes ?pre mem0 = Inr g"
    by blast
  with ne show ?thesis
    by (simp add: SHSZ_unfold same [symmetric] DataFrame_utc_rows)
qed

lemma SHSZ_default:
  assumes "start_default \<le> end_default today" "start_default \<notin> set cached"
  shows "\<exists>cal. SHSZExchangeCalendar today cached mem0 start_default (end_default today) = Inr cal"
  using SHSZ_same_days [OF refl default_range_not_empty [OF assms]] by blast

text \<open>
  When the range of the arguments has another number of trading days than the default
  range, and neither number is one, the subtraction of line 152 raises inside the base
  class.
\<close>

lemma SHSZ_raises:
  assumes "length (filter (day (adhoc_holidays cached)) [start..end]) \<noteq>
           length (filter (day (adhoc_holidays cached)) [start_default..end_default today])"
    and "length (filter (day (adhoc_holidays cached)) [start_default..end_default today]) \<noteq> 1"
    and "length (filter (day (adhoc_holidays cached)) [start..end]) \<noteq> 1"
  shows "SHSZExchangeCalendar today cached mem0 start end = Inl ValueError"
  using assms
  by (simp add: SHSZ_unfold all_minutes_def daily_before_lunch_sizes_def
      deltas_before_lunch_def broadcast_def date_range_def)

section \<open>The dates of the scenarios\<close>

lemma scenario_dates:
  "days_from_civil 2016 3 14 = 16874" "days_from_civil 2016 1 1 = 16801"
  "days_from_civil 1990 12 18 = 7656" "days_from_civil 1990 12 19 = 7657"
  "days_from_civil 2017 3 13 = 17238" "days_from_civil 2017 3 14 = 17239"
  "days_from_civil 2016 3 11 = 16871" "days_from_civil 2017 3 11 = 17236"
  "days_from_civil 2017 3 12 = 17237"
  by (simp_all add: days_from_civil_def Let_def)

lemma scenario_default_range:
  "start_default = 7657" "end_default (days_from_civil 2016 3 14) = 17239"
  "end_default (days_from_civil 2016 3 11) = 17236"
  by (simp_all add: start_default_def end_default_def scenario_dates)

lemma scenario_weekdays:
  "weekday 7656 = TUESDAY" "weekday 7657 = WEDNESDAY" "weekday 7658 = THURSDAY"
  "weekday 17238 = MONDAY" "weekday 17239 = TUESDAY"
  "weekday 16874 = MONDAY" "weekday 16801 = FRIDAY"
  "weekday 17236 = SATURDAY" "weekday 17237 = SUNDAY"
  by (simp_all add: weekday_def MONDAY_def TUESDAY_def WEDNESDAY_def THURSDAY_def FRIDAY_def
      SATURDAY_def SUNDAY_def)

lemma scenario_days:
  "day (adhoc_holidays []) 7656" "day (adhoc_holidays []) 7657" "day (adhoc_holidays []) 7658"
  "day (adhoc_holidays []) 17238" "day (adhoc_holidays []) 17239"
  "\<not> day (adhoc_holidays []) 17237"
  by (simp_all add: day_no_holidays scenario_weekdays MONDAY_def TUESDAY_def WEDNESDAY_def
      THURSDAY_def SATURDAY_def SUNDAY_def)

text \<open>
  The module imported on 2016-03-14, the holiday file holding 2016-01-01, and the default
  arguments: the calendar is constructed.
\<close>

lemma scenario_constructed:
  "\<exists>cal. SHSZExchangeCalendar (days_from_civil 2016 3 14) [days_from_civil 2016 1 1] mem0
            start_default (end_default (days_from_civil 2016 3 14)) = Inr cal"
  by (rule SHSZ_default) (simp_all add: scenario_default_range scenario_dates end_default_def)

section \<open>Sessions and rows\<close>

text \<open>
  C1. The sessions of a constructed calendar are strictly ascending, free of duplicates,
  and are exactly the dates from \<open>start\<close> to \<open>end\<close> that are no Saturday, no Sunday and
  no holiday.
\<close>

theorem sessions_ascending_exact:
  assumes "SHSZExchangeCalendar today cached mem0 start end = Inr cal"
  shows "sorted_wrt (<) (all_sessions cal) \<and> distinct (all_sessions cal) \<and>
         set (all_sessions cal) =
           Timestamp ` ({d. start \<le> d \<and> d \<le> end}
                         - {d. weekday d = SATURDAY \<or> weekday d = SUNDAY} - set cached)"
proof -
  have "{d. start \<le> d \<and> d \<le> end \<and> day (adhoc_holidays cached) d} =
        {d. start \<le> d \<and> d \<le> end}
          - {d. weekday d = SATURDAY \<or> weekday d = SUNDAY} - set cached"
    by (auto simp: day_iff)
  then show ?thesis
    by (simp add: SHSZ_sessions [OF assms] date_range_sorted date_range_distinct
        date_range_set)
qed

text \<open>
  The module imported on 2016-03-14, the holiday file holding 2016-01-01, and the default
  arguments.
\<close>

theorem sessions_ascending_exact_witness:
  "\<exists>cal. SHSZExchangeCalendar (days_from_civil 2016 3 14) [days_from_civil 2016 1 1] (\<lambda>i. 0)
            start_default (end_default (days_from_civil 2016 3 14)) = Inr cal \<and>
         sorted_wrt (<) (all_sessions cal) \<and> distinct (all_sessions cal) \<and>
         set (all_sessions cal) =
           Timestamp ` ({d. start_default \<le> d \<and> d \<le> end_default (days_from_civil 2016 3 14)}
                         - {d. weekday d = SATURDAY \<or> weekday d = SUNDAY}
                         - set [days_from_civil 2016 1 1])"
proof -
  obtain cal where c: "SHSZExchangeCalendar (days_from_civil 2016 3 14)
      [days_from_civil 2016 1 1] (\<lambda>i. 0) start_default
      (end_default (days_from_civil 2016 3 14)) = Inr cal"
    using scenario_constructed by blast
  from sessions_ascending_exact [OF c] c show ?thesis
    by blast
qed

text \<open>
  C2. The schedule of a constructed calendar has exactly one row for each trading day of
  the range of the arguments, in ascending order of the dates, and every row holds what
  \<open>days_at_time\<close> gives for the row's own date at the four configured times in the
  calendar's zone.
\<close>

theorem schedule_rows_localized:
  assumes c: "SHSZExchangeCalendar today cached mem0 start end = Inr cal"
  shows "map session (schedule cal) = date_range start end (day (adhoc_holidays cached)) \<and>
         sorted_wrt (<) (map session (schedule cal)) \<and>
         distinct (map session (schedule cal)) \<and>
         (\<forall>r\<in>set (schedule cal). localized_row r)"
proof -
  have idx: "map session (schedule cal) = date_range start end (day (adhoc_holidays cached))"
    using SHSZ_sessions [OF c] by (simp add: all_sessions_def)
  from constructed(1) [OF c] obtain ts where rows: "schedule cal = map utc_row ts"
    by blast
  have "\<forall>r\<in>set (schedule cal). localized_row r"
    unfolding rows by (auto simp: localized_row_iff utc_row_def)
  with idx show ?thesis
    by (simp add: date_range_sorted date_range_distinct)
qed

text \<open>
  The module imported on 2016-03-14, the holiday file holding 2016-01-01, and the default
  arguments.
\<close>

theorem schedule_rows_localized_witness:
  "\<exists>cal. SHSZExchangeCalendar (days_from_civil 2016 3 14) [days_from_civil 2016 1 1] (\<lambda>i. 0)
            start_default (end_default (days_from_civil 2016 3 14)) = Inr cal \<and>
         map session (schedule cal) =
           date_range start_default (end_default (days_from_civil 2016 3 14))
             (day (adhoc_holidays [days_from_civil 2016 1 1])) \<and>
         sorted_wrt (<) (map session (schedule cal)) \<and>
         distinct (map session (schedule cal)) \<and>
         list_all localized_row (schedule cal)"
proof -
  obtain cal where c: "SHSZExchangeCalendar (days_from_civil 2016 3 14)
      [days_from_civil 2016 1 1] (\<lambda>i. 0) start_default
      (end_default (days_from_civil 2016 3 14)) = Inr cal"
    using scenario_constructed by blast
  from schedule_rows_localized [OF c] c show ?thesis
    by (auto simp: list_all_iff)
qed

section \<open>The minutes of days that have their own boundaries\<close>

lemma set_session_minutes_utc_row:
  "set (session_minutes (utc_row t)) =
     {t + 91 * NANOS_IN_MINUTE + int k * NANOS_IN_MINUTE | k. k < 120} \<union>
     {t + 301 * NANOS_IN_MINUTE + int k * NANOS_IN_MINUTE | k. k < 120}"
  by (auto simp: session_minutes_utc_row)

lemma in_session_utc_row:
  "in_session (utc_row t) x \<longleftrightarrow>
     (t + 91 * NANOS_IN_MINUTE \<le> x \<and> x \<le> t + 210 * NANOS_IN_MINUTE) \<or>
     (t + 301 * NANOS_IN_MINUTE \<le> x \<and> x \<le> t + 420 * NANOS_IN_MINUTE)"
  by (simp add: in_session_def utc_row_def)

lemma session_minutes_in_session:
  assumes "x \<in> set (session_minutes (utc_row t))"
  shows "in_session (utc_row t) x"
  using assms
  by (auto simp: set_session_minutes_utc_row in_session_utc_row NANOS_IN_MINUTE_def)

lemma ticks_sorted: "sorted_wrt (<) (map (\<lambda>k. s + int k * NANOS_IN_MINUTE) [0..<n])"
proof -
  have "sorted_wrt (\<lambda>i j. s + int i * NANOS_IN_MINUTE < s + int j * NANOS_IN_MINUTE) [0..<n]"
    by (rule sorted_wrt_mono_rel [of _ "(<)"]) (simp_all add: NANOS_IN_MINUTE_def)
  then show ?thesis
    by (simp only: sorted_wrt_map)
qed

lemma session_minutes_sorted: "sorted_wrt (<) (session_minutes (utc_row t))"
proof -
  have "x < y"
    if "x \<in> set (map (\<lambda>k. t + 91 * NANOS_IN_MINUTE + int k * NANOS_IN_MINUTE) [0..<120])"
      "y \<in> set (map (\<lambda>k. t + 301 * NANOS_IN_MINUTE + int k * NANOS_IN_MINUTE) [0..<120])"
    for x y
    using that by (auto simp: NANOS_IN_MINUTE_def)
  then show ?thesis
    unfolding session_minutes_utc_row sorted_wrt_append
    using ticks_sorted by blast
qed

lemma Timestamp_gap: "a < b \<Longrightarrow> Timestamp a + 1440 * NANOS_IN_MINUTE \<le> Timestamp b"
  by (simp add: Timestamp_def NANOS_IN_DAY_def NANOS_IN_MINUTE_def)

lemma in_session_later:
  assumes "in_session (utc_row (Timestamp a)) x" "in_session (utc_row (Timestamp b)) y" "a < b"
  shows "x < y"
  using assms Timestamp_gap [OF assms(3)]
  by (auto simp: in_session_utc_row NANOS_IN_MINUTE_def)

lemma in_session_same_day:
  assumes "in_session (utc_row (Timestamp a)) x" "in_session (utc_row (Timestamp b)) x"
  shows "a = b"
  using in_session_later [OF assms(1,2)] in_session_later [OF assms(2,1)]
  by (cases a b rule: linorder_cases) auto

lemma minutes_sorted:
  assumes "sorted_wrt (<) ds"
  shows "sorted_wrt (<) (concat (map (\<lambda>x. session_minutes (utc_row (Timestamp x))) ds))"
  using assms
proof (induction ds)
  case Nil
  then show ?case by simp
next
  case (Cons d ds)
  have "x < y" if "x \<in> set (session_minutes (utc_row (Timestamp d)))"
    "e \<in> set ds" "y \<in> set (session_minutes (utc_row (Timestamp e)))" for x y e
    using that Cons.prems
    by (intro in_session_later [of d x e y] session_minutes_in_session) auto
  with Cons show ?case
    by (auto simp: sorted_wrt_append session_minutes_sorted)
qed

lemma minutes_length:
  "length (concat (map session_minutes (map utc_row ts))) = 240 * length ts"
  by (induction ts) (simp_all add: length_session_minutes_utc_row)

lemma utc_row_minute_counts:
  "(lunch_break_start_col (utc_row t) - market_open (utc_row t)) div NANOS_IN_MINUTE + 1 = 120"
  "(market_close (utc_row t) - lunch_break_end_col (utc_row t)) div NANOS_IN_MINUTE + 1 = 120"
  by (simp_all add: utc_row_def NANOS_IN_MINUTE_def)

lemma minutes_sum:
  "(\<Sum>r\<leftarrow>map utc_row ts.
      ((lunch_break_start_col r - market_open r) div NANOS_IN_MINUTE + 1) +
      ((market_close r - lunch_break_end_col r) div NANOS_IN_MINUTE + 1)) = 240 * int (length ts)"
proof -
  define f where "f = (\<lambda>r::session_row. ((lunch_break_start_col r - market_open r) div NANOS_IN_MINUTE + 1) +
      ((market_close r - lunch_break_end_col r) div NANOS_IN_MINUTE + 1))"
  have fr: "f (utc_row t) = 240" for t
    by (simp add: f_def utc_row_def NANOS_IN_MINUTE_def)
  have "sum_list (map f (map utc_row ts)) = 240 * int (length ts)"
    by (induction ts) (simp_all add: fr)
  then show ?thesis
    unfolding f_def .
qed

text \<open>
  C4. On a constructed calendar \<open>all_minutes\<close> returns, whatever the memory held, and
  what it returns is strictly ascending and free of duplicates, and has as many elements
  as the sessions have minutes: for each row the minutes from open to break start plus
  one, and from break end to close plus one.
\<close>

theorem all_minutes_ascending:
  assumes c: "SHSZExchangeCalendar today cached mem0 start end = Inr cal"
  shows "\<exists>g. all_minutes cal mem = Inr g \<and>
           sorted_wrt (<) g \<and> distinct g \<and>
           int (length g) =
             (\<Sum>r\<leftarrow>schedule cal.
                ((lunch_break_start_col r - market_open r) div NANOS_IN_MINUTE + 1) +
                ((market_close r - lunch_break_end_col r) div NANOS_IN_MINUTE + 1))"
proof -
  from constructed(2) [OF c] obtain g where g: "all_minutes cal mem = Inr g"
    and g_rows: "g = concat (map session_minutes (schedule cal))"
    by blast
  define ds where "ds = filter (day (adhoc_holidays cached)) [start..end]"
  have sess: "all_sessions cal = map Timestamp ds"
    by (simp add: SHSZ_sessions [OF c] date_range_def ds_def)
  have rows: "schedule cal = map utc_row (map Timestamp ds)"
    using constructed(1) [OF c] sess by simp
  have grid: "g = concat (map (\<lambda>x. session_minutes (utc_row (Timestamp x))) ds)"
    using g_rows rows by (simp add: comp_def)
  have "sorted_wrt (<) ds"
    unfolding ds_def by (rule sorted_wrt_filter) simp
  then have s: "sorted_wrt (<) g"
    unfolding grid by (rule minutes_sorted)
  then have "distinct g"
    using strict_sorted_iff by blast
  moreover have "int (length g) = 240 * int (length (map Timestamp ds))"
    using g_rows by (simp only: rows minutes_length)
  ultimately have "sorted_wrt (<) g \<and> distinct g \<and>
         int (length g) =
           (\<Sum>r\<leftarrow>schedule cal.
              ((lunch_break_start_col r - market_open r) div NANOS_IN_MINUTE + 1) +
              ((market_close r - lunch_break_end_col r) div NANOS_IN_MINUTE + 1))"
    using s by (simp only: rows minutes_sum)
  with g show ?thesis
    by blast
qed

text \<open>The calendar of the default arguments, the module imported on 2016-03-14.\<close>

theorem all_minutes_ascending_witness:
  "\<exists>cal g. SHSZExchangeCalendar (days_from_civil 2016 3 14) [days_from_civil 2016 1 1] (\<lambda>i. 0)
            start_default (end_default (days_from_civil 2016 3 14)) = Inr cal \<and>
         all_minutes cal (\<lambda>i. 0) = Inr g \<and>
         sorted_wrt (<) g \<and> distinct g \<and>
         int (length g) =
           (\<Sum>r\<leftarrow>schedule cal.
              ((lunch_break_start_col r - market_open r) div NANOS_IN_MINUTE + 1) +
              ((market_close r - lunch_break_end_col r) div NANOS_IN_MINUTE + 1))"
proof -
  obtain cal where c: "SHSZExchangeCalendar (days_from_civil 2016 3 14)
      [days_from_civil 2016 1 1] (\<lambda>i. 0) start_default
      (end_default (days_from_civil 2016 3 14)) = Inr cal"
    using scenario_constructed by blast
  from all_minutes_ascending [OF c, of "\<lambda>i. 0"] c show ?thesis
    by blast
qed

text \<open>
  C5. On a constructed calendar \<open>all_minutes\<close> returns the minute grid. Every
  element of the grid lies in a trading window of exactly one session; the grid holds
  every one-minute tick from open to break start and from break end to close of every
  session; and no element lies strictly inside the lunch break of any session.
\<close>

theorem minute_grid_covers_sessions:
  assumes c: "SHSZExchangeCalendar today cached mem0 start end = Inr cal"
  shows "\<exists>g. all_minutes cal mem = Inr g \<and>
         (\<forall>x\<in>set g. \<exists>!r. r \<in> set (schedule cal) \<and> in_session r x) \<and>
         (\<forall>r\<in>set (schedule cal). \<forall>k\<ge>0.
            (market_open r + k * NANOS_IN_MINUTE \<le> lunch_break_start_col r \<longrightarrow>
               market_open r + k * NANOS_IN_MINUTE \<in> set g) \<and>
            (lunch_break_end_col r + k * NANOS_IN_MINUTE \<le> market_close r \<longrightarrow>
               lunch_break_end_col r + k * NANOS_IN_MINUTE \<in> set g)) \<and>
         (\<forall>x\<in>set g. \<forall>r\<in>set (schedule cal).
            \<not> (lunch_break_start_col r < x \<and> x < lunch_break_end_col r))"
proof -
  from constructed(2) [OF c] obtain g where g: "all_minutes cal mem = Inr g"
    and g_rows: "g = concat (map session_minutes (schedule cal))"
    by blast
  define ds where "ds = filter (day (adhoc_holidays cached)) [start..end]"
  have sess: "all_sessions cal = map Timestamp ds"
    by (simp add: SHSZ_sessions [OF c] date_range_def ds_def)
  have rows: "schedule cal = map utc_row (map Timestamp ds)"
    using constructed(1) [OF c] sess by simp
  have grid: "set g = (\<Union>d\<in>set ds. set (session_minutes (utc_row (Timestamp d))))"
    using g_rows rows by simp
  have one: "\<exists>!r. r \<in> set (schedule cal) \<and> in_session r x" if "x \<in> set g" for x
  proof -
    from that grid obtain d where d: "d \<in> set ds"
      "x \<in> set (session_minutes (utc_row (Timestamp d)))"
      by auto
    have xin: "in_session (utc_row (Timestamp d)) x"
      using d(2) by (rule session_minutes_in_session)
    have rin: "utc_row (Timestamp d) \<in> set (schedule cal)"
      unfolding rows using d(1) by simp
    have "r = utc_row (Timestamp d)"
      if "r \<in> set (schedule cal)" "in_session r x" for r
    proof -
      from that(1) obtain e where e: "e \<in> set ds" "r = utc_row (Timestamp e)"
        unfolding rows by auto
      with that(2) have "in_session (utc_row (Timestamp e)) x"
        by simp
      from in_session_same_day [OF this xin] e show ?thesis
        by simp
    qed
    with xin rin show ?thesis
      by blast
  qed
  have ticks: "(market_open r + k * NANOS_IN_MINUTE \<le> lunch_break_start_col r \<longrightarrow>
               market_open r + k * NANOS_IN_MINUTE \<in> set g) \<and>
            (lunch_break_end_col r + k * NANOS_IN_MINUTE \<le> market_close r \<longrightarrow>
               lunch_break_end_col r + k * NANOS_IN_MINUTE \<in> set g)"
    if "r \<in> set (schedule cal)" "0 \<le> k" for r k
  proof -
    from that(1) obtain d where d: "d \<in> set ds" "r = utc_row (Timestamp d)"
      unfolding rows by auto
    have "Timestamp d + 91 * NANOS_IN_MINUTE + k * NANOS_IN_MINUTE
            \<in> set (session_minutes (utc_row (Timestamp d)))"
      if "Timestamp d + 91 * NANOS_IN_MINUTE + k * NANOS_IN_MINUTE
            \<le> Timestamp d + 210 * NANOS_IN_MINUTE"
    proof -
      from that \<open>0 \<le> k\<close> have "nat k < 120" "int (nat k) = k"
        by (simp_all add: NANOS_IN_MINUTE_def)
      then show ?thesis
        unfolding set_session_minutes_utc_row by (metis (mono_tags, lifting) UnI1 mem_Collect_eq)
    qed
    moreover have "Timestamp d + 301 * NANOS_IN_MINUTE + k * NANOS_IN_MINUTE
            \<in> set (session_minutes (utc_row (Timestamp d)))"
      if "Timestamp d + 301 * NANOS_IN_MINUTE + k * NANOS_IN_MINUTE
            \<le> Timestamp d + 420 * NANOS_IN_MINUTE"
    proof -
      from that \<open>0 \<le> k\<close> have "nat k < 120" "int (nat k) = k"
        by (simp_all add: NANOS_IN_MINUTE_def)
      then show ?thesis
        unfolding set_session_minutes_utc_row by (metis (mono_tags, lifting) UnI2 mem_Collect_eq)
    qed
    ultimately show ?thesis
      using d grid by (auto simp: utc_row_def)
  qed
  have lunch: "\<not> (lunch_break_start_col r < x \<and> x < lunch_break_end_col r)"
    if "x \<in> set g" "r \<in> set (schedule cal)" for x r
  proof
    assume inside: "lunch_break_start_col r < x \<and> x < lunch_break_end_col r"
    from that(2) obtain e where e: "e \<in> set ds" "r = utc_row (Timestamp e)"
      unfolding rows by auto
    from that(1) grid obtain d where d: "d \<in> set ds"
      "x \<in> set (session_minutes (utc_row (Timestamp d)))"
      by auto
    then have x: "in_session (utc_row (Timestamp d)) x"
      by (simp add: session_minutes_in_session)
    have o: "in_session (utc_row (Timestamp e)) (Timestamp e + 210 * NANOS_IN_MINUTE)"
      and l: "in_session (utc_row (Timestamp e)) (Timestamp e + 301 * NANOS_IN_MINUTE)"
      by (simp_all add: in_session_utc_row NANOS_IN_MINUTE_def)
    consider "d < e" | "d = e" | "e < d"
      by linarith
    then show False
    proof cases
      case 1
      from in_session_later [OF x o 1] inside e show False
        by (simp add: utc_row_def)
    next
      case 2
      with x have "(Timestamp e + 91 * NANOS_IN_MINUTE \<le> x \<and>
            x \<le> Timestamp e + 210 * NANOS_IN_MINUTE) \<or>
          (Timestamp e + 301 * NANOS_IN_MINUTE \<le> x \<and>
            x \<le> Timestamp e + 420 * NANOS_IN_MINUTE)"
        by (simp add: in_session_utc_row)
      moreover from inside e have "Timestamp e + 210 * NANOS_IN_MINUTE < x"
        "x < Timestamp e + 301 * NANOS_IN_MINUTE"
        by (simp_all add: utc_row_def)
      ultimately show False
        by linarith
    next
      case 3
      from in_session_later [OF l x 3] inside e show False
        by (simp add: utc_row_def)
    qed
  qed
  from one ticks lunch have "(\<forall>x\<in>set g. \<exists>!r. r \<in> set (schedule cal) \<and> in_session r x) \<and>
         (\<forall>r\<in>set (schedule cal). \<forall>k\<ge>0.
            (market_open r + k * NANOS_IN_MINUTE \<le> lunch_break_start_col r \<longrightarrow>
               market_open r + k * NANOS_IN_MINUTE \<in> set g) \<and>
            (lunch_break_end_col r + k * NANOS_IN_MINUTE \<le> market_close r \<longrightarrow>
               lunch_break_end_col r + k * NANOS_IN_MINUTE \<in> set g)) \<and>
         (\<forall>x\<in>set g. \<forall>r\<in>set (schedule cal).
            \<not> (lunch_break_start_col r < x \<and> x < lunch_break_end_col r))"
    by blast
  with g show ?thesis
    by blast
qed

text \<open>The calendar of the default arguments, the module imported on 2016-03-14.\<close>

theorem minute_grid_covers_sessions_witness:
  "\<exists>cal g. SHSZExchangeCalendar (days_from_civil 2016 3 14) [days_from_civil 2016 1 1] (\<lambda>i. 0)
            start_default (end_default (days_from_civil 2016 3 14)) = Inr cal \<and>
         all_minutes cal (\<lambda>i. 0) = Inr g \<and>
         (\<forall>x\<in>set g. \<exists>!r. r \<in> set (schedule cal) \<and> in_session r x) \<and>
         (\<forall>r\<in>set (schedule cal). \<forall>k\<ge>0.
            (market_open r + k * NANOS_IN_MINUTE \<le> lunch_break_start_col r \<longrightarrow>
               market_open r + k * NANOS_IN_MINUTE \<in> set g) \<and>
            (lunch_break_end_col r + k * NANOS_IN_MINUTE \<le> market_close r \<longrightarrow>
               lunch_break_end_col r + k * NANOS_IN_MINUTE \<in> set g)) \<and>
         (\<forall>x\<in>set g. \<forall>r\<in>set (schedule cal).
            \<not> (lunch_break_start_col r < x \<and> x < lunch_break_end_col r))"
proof -
  obtain cal where c: "SHSZExchangeCalendar (days_from_civil 2016 3 14)
      [days_from_civil 2016 1 1] (\<lambda>i. 0) start_default
      (end_default (days_from_civil 2016 3 14)) = Inr cal"
    using scenario_constructed by blast
  from minute_grid_covers_sessions [OF c, of "\<lambda>i. 0"] c show ?thesis
    by blast
qed

section \<open>The two counts of the minutes of a session\<close>

lemma whole_minutes_diff:
  assumes "NANOS_IN_MINUTE dvd x" "NANOS_IN_MINUTE dvd y"
  shows "timedelta_div (x - y) NANOS_IN_MINUTE = x div NANOS_IN_MINUTE - y div NANOS_IN_MINUTE"
proof -
  from assms obtain p q where "x = p * NANOS_IN_MINUTE" "y = q * NANOS_IN_MINUTE"
    by (auto simp: dvd_def mult.commute)
  moreover have "timedelta_div ((p - q) * NANOS_IN_MINUTE) NANOS_IN_MINUTE = p - q"
    by (rule timedelta_div_exact [OF NANOS_IN_MINUTE_pos])
  ultimately show ?thesis
    using NANOS_IN_MINUTE_pos by (simp add: algebra_simps)
qed

lemma column_nth:
  assumes "column n xs = Inr ys" "i < n"
  shows "ys ! i \<in> set xs"
proof -
  from assms(1) consider "ys = xs" "length xs = n" | "ys = replicate n (hd xs)" "length xs = 1"
    by (auto simp: column_Inr)
  then show ?thesis
  proof cases
    case 1
    with assms(2) show ?thesis by simp
  next
    case 2
    then have "xs \<noteq> []" by auto
    with 2 assms(2) show ?thesis by simp
  qed
qed

lemma broadcast_column_right:
  assumes "column (length xs) ys = Inr ys'"
  shows "broadcast f xs ys = Inr (map2 f xs ys')"
proof -
  from assms consider "ys' = ys" "length ys = length xs"
    | "ys' = replicate (length xs) (hd ys)" "length ys = 1" "length ys \<noteq> length xs"
    by (auto simp: column_Inr)
  then show ?thesis
  proof cases
    case 1
    then show ?thesis by (simp add: broadcast_def)
  next
    case 2
    have "map (\<lambda>x. f x (hd ys)) xs = map2 f xs (replicate (length xs) (hd ys))"
      by (rule nth_equalityI) simp_all
    with 2 show ?thesis by (simp add: broadcast_def)
  qed
qed

lemma broadcast_column_left:
  assumes "column (length ys) xs = Inr xs'"
  shows "broadcast f xs ys = Inr (map2 f xs' ys)"
proof -
  from assms consider "xs' = xs" "length xs = length ys"
    | "xs' = replicate (length ys) (hd xs)" "length xs = 1" "length xs \<noteq> length ys"
    by (auto simp: column_Inr)
  then show ?thesis
  proof cases
    case 1
    then show ?thesis by (simp add: broadcast_def)
  next
    case 2
    have "map (\<lambda>y. f (hd xs) y) ys = map2 f (replicate (length ys) (hd xs)) ys"
      by (rule nth_equalityI) simp_all
    with 2 show ?thesis by (simp add: broadcast_def)
  qed
qed

lemma whole_minute_boundary: "NANOS_IN_MINUTE dvd Timestamp d + c * NANOS_IN_MINUTE"
  by (simp add: Timestamp_def NANOS_IN_DAY_def)

lemma date_range_whole_minutes:
  assumes "xs = map (\<lambda>t. t + c * NANOS_IN_MINUTE) (date_range s e f)" "x \<in> set xs"
  shows "NANOS_IN_MINUTE dvd x"
proof -
  from assms obtain d where "x = Timestamp d + c * NANOS_IN_MINUTE"
    by (auto simp: date_range_def)
  then show ?thesis
    by (simp only: whole_minute_boundary)
qed

lemma minutes_per_session_utc_row:
  "((lunch_break_start_col (utc_row t) div NANOS_IN_MINUTE
       - market_open (utc_row t) div NANOS_IN_MINUTE)
     + (market_close (utc_row t) div NANOS_IN_MINUTE
       - lunch_break_end_col (utc_row t) div NANOS_IN_MINUTE)) + 2 =
   int (length (session_minutes (utc_row t)))"
proof -
  have "NANOS_IN_MINUTE \<noteq> 0"
    using NANOS_IN_MINUTE_pos by simp
  then have "(t + c * NANOS_IN_MINUTE) div NANOS_IN_MINUTE = c + t div NANOS_IN_MINUTE" for c
    by simp
  then have "((lunch_break_start_col (utc_row t) div NANOS_IN_MINUTE
       - market_open (utc_row t) div NANOS_IN_MINUTE)
     + (market_close (utc_row t) div NANOS_IN_MINUTE
       - lunch_break_end_col (utc_row t) div NANOS_IN_MINUTE)) + 2 = 240"
    by (simp add: utc_row_def)
  then show ?thesis
    by (simp only: length_session_minutes_utc_row)
qed

text \<open>
  On every constructed calendar the count of \<open>minutes_per_session\<close> is, row by row, the
  size \<open>all_minutes\<close> computes for the day.
\<close>

lemma daily_sizes_minutes_per_session:
  assumes c: "SHSZExchangeCalendar today cached mem0 start end = Inr cal"
  shows "\<exists>bs afs. daily_before_lunch_sizes cal = Inr bs \<and>
            daily_after_lunch_sizes cal = Inr afs \<and>
            daily_sizes cal = Inr (map2 (+) bs afs) \<and>
            minutes_per_session cal = map2 (+) bs afs"
proof -
  define idx where "idx = date_range start end (day (adhoc_holidays cached))"
  note f = SHSZ_fields [OF c]
  have l: "length (lunch_break_starts cal) = length idx"
    "length (lunch_break_ends cal) = length idx"
    by (simp_all add: f idx_def)
  from f(5) obtain os cs where os: "column (length idx) (opens cal) = Inr os"
    and cs: "column (length idx) (closes cal) = Inr cs"
    and sched: "schedule cal =
      map (\<lambda>i. \<lparr>session = idx ! i, market_open = os ! i, market_close = cs ! i,
                 lunch_break_start_col = lunch_break_starts cal ! i,
                 lunch_break_end_col = lunch_break_ends cal ! i\<rparr>) [0..<length idx]"
    unfolding idx_def [symmetric]
    by (auto simp: DataFrame_def column_same l split: sum.splits)
  have los: "length os = length idx" and lcs: "length cs = length idx"
    using os cs by (auto simp: column_Inr)
  have before: "daily_before_lunch_sizes cal =
      Inr (map (\<lambda>\<delta>. timedelta_div \<delta> NANOS_IN_MINUTE + 1) (map2 (-) (lunch_break_starts cal) os))"
    using broadcast_column_right [of "lunch_break_starts cal" "opens cal" os "(-)"] os l
    by (simp add: daily_before_lunch_sizes_def deltas_before_lunch_def)
  have after: "daily_after_lunch_sizes cal =
      Inr (map (\<lambda>\<delta>. timedelta_div \<delta> NANOS_IN_MINUTE + 1) (map2 (-) cs (lunch_break_ends cal)))"
    using broadcast_column_left [of "lunch_break_ends cal" "closes cal" cs "(-)"] cs l
    by (simp add: daily_after_lunch_sizes_def deltas_after_lunch_def)
  have whole: "NANOS_IN_MINUTE dvd os ! i" "NANOS_IN_MINUTE dvd cs ! i"
    "NANOS_IN_MINUTE dvd lunch_break_starts cal ! i"
    "NANOS_IN_MINUTE dvd lunch_break_ends cal ! i" if "i < length idx" for i
  proof -
    show "NANOS_IN_MINUTE dvd os ! i"
      by (rule date_range_whole_minutes [OF f(1) column_nth [OF os that]])
    show "NANOS_IN_MINUTE dvd cs ! i"
      by (rule date_range_whole_minutes [OF f(2) column_nth [OF cs that]])
    from that l have m: "lunch_break_starts cal ! i \<in> set (lunch_break_starts cal)"
      "lunch_break_ends cal ! i \<in> set (lunch_break_ends cal)"
      by simp_all
    show "NANOS_IN_MINUTE dvd lunch_break_starts cal ! i"
      by (rule date_range_whole_minutes [OF f(3) m(1)])
    show "NANOS_IN_MINUTE dvd lunch_break_ends cal ! i"
      by (rule date_range_whole_minutes [OF f(4) m(2)])
  qed
  have "map2 (+)
          (map (\<lambda>\<delta>. timedelta_div \<delta> NANOS_IN_MINUTE + 1) (map2 (-) (lunch_break_starts cal) os))
          (map (\<lambda>\<delta>. timedelta_div \<delta> NANOS_IN_MINUTE + 1) (map2 (-) cs (lunch_break_ends cal))) =
        minutes_per_session cal"
    unfolding minutes_per_session_def sched
    using l los lcs by (intro nth_equalityI) (simp_all add: whole whole_minutes_diff)
  then show ?thesis
    using l los lcs by (simp add: daily_sizes_def before after broadcast_same)
qed

text \<open>
  C9. For every row of a constructed calendar the count of \<open>minutes_per_session\<close>, with
  its \<open>+ 2\<close>, is the size \<open>all_minutes\<close> gives the day, with its \<open>+ 1\<close> for each of the
  two windows; \<open>all_minutes\<close> returns, and the count is the number of minutes the grid
  holds for the row.
\<close>

theorem minutes_per_session_counts:
  assumes c: "SHSZExchangeCalendar today cached mem0 start end = Inr cal"
  shows "(\<exists>bs afs. daily_before_lunch_sizes cal = Inr bs \<and>
            daily_after_lunch_sizes cal = Inr afs \<and>
            daily_sizes cal = Inr (map2 (+) bs afs) \<and>
            minutes_per_session cal = map2 (+) bs afs) \<and>
         (\<exists>g. all_minutes cal mem = Inr g \<and>
            g = concat (map session_minutes (schedule cal)) \<and>
            minutes_per_session cal = map (\<lambda>r. int (length (session_minutes r))) (schedule cal))"
proof -
  from constructed(1) [OF c] obtain ts where rows: "schedule cal = map utc_row ts"
    by blast
  have "minutes_per_session cal = map (\<lambda>r. int (length (session_minutes r))) (schedule cal)"
    unfolding minutes_per_session_def rows
    by (simp add: minutes_per_session_utc_row)
  with constructed(2) [OF c, of mem] daily_sizes_minutes_per_session [OF c] show ?thesis
    by blast
qed

text \<open>The calendar of the default arguments, the module imported on 2016-03-14.\<close>

theorem minutes_per_session_counts_witness:
  "\<exists>cal g. SHSZExchangeCalendar (days_from_civil 2016 3 14) [days_from_civil 2016 1 1] (\<lambda>i. 0)
            start_default (end_default (days_from_civil 2016 3 14)) = Inr cal \<and>
         all_minutes cal (\<lambda>i. 0) = Inr g \<and>
         daily_sizes cal = Inr (minutes_per_session cal) \<and>
         g = concat (map session_minutes (schedule cal)) \<and>
         minutes_per_session cal = map (\<lambda>r. int (length (session_minutes r))) (schedule cal)"
proof -
  obtain cal where c: "SHSZExchangeCalendar (days_from_civil 2016 3 14)
      [days_from_civil 2016 1 1] (\<lambda>i. 0) start_default
      (end_default (days_from_civil 2016 3 14)) = Inr cal"
    using scenario_constructed by blast
  from minutes_per_session_counts [OF c, of "\<lambda>i. 0"] c show ?thesis
    by auto
qed

section \<open>Arguments other than the defaults\<close>

text \<open>
  The table line 95 builds when the range of the arguments has as many trading days as
  the default range and begins earlier: its first row has its break start before its
  open.
\<close>

lemma earlier_days_table:
  assumes len: "length a = length d" and pos: "0 < length a" and lt: "a ! 0 < d ! 0"
  shows "\<exists>sched. DataFrame (map Timestamp a)
                   (map (\<lambda>t. t + 91 * NANOS_IN_MINUTE) (map Timestamp d))
                   (map (\<lambda>t. t + 420 * NANOS_IN_MINUTE) (map Timestamp d))
                   (map (\<lambda>t. t + 210 * NANOS_IN_MINUTE) (map Timestamp a))
                   (map (\<lambda>t. t + 301 * NANOS_IN_MINUTE) (map Timestamp a)) = Inr sched \<and>
                 (\<exists>r\<in>set sched. \<not> ordered_row r)"
proof -
  define row where "row = (\<lambda>i.
      \<lparr>session = map Timestamp a ! i,
       market_open = map (\<lambda>t. t + 91 * NANOS_IN_MINUTE) (map Timestamp d) ! i,
       market_close = map (\<lambda>t. t + 420 * NANOS_IN_MINUTE) (map Timestamp d) ! i,
       lunch_break_start_col = map (\<lambda>t. t + 210 * NANOS_IN_MINUTE) (map Timestamp a) ! i,
       lunch_break_end_col = map (\<lambda>t. t + 301 * NANOS_IN_MINUTE) (map Timestamp a) ! i\<rparr>)"
  have df: "DataFrame (map Timestamp a)
              (map (\<lambda>t. t + 91 * NANOS_IN_MINUTE) (map Timestamp d))
              (map (\<lambda>t. t + 420 * NANOS_IN_MINUTE) (map Timestamp d))
              (map (\<lambda>t. t + 210 * NANOS_IN_MINUTE) (map Timestamp a))
              (map (\<lambda>t. t + 301 * NANOS_IN_MINUTE) (map Timestamp a)) =
            Inr (map row [0..<length (map Timestamp a)])"
    unfolding row_def using len by (intro DataFrame_same_length) simp_all
  have "\<not> ordered_row (row 0)"
    using pos len Timestamp_gap [OF lt] NANOS_IN_MINUTE_pos
    by (simp add: row_def ordered_row_def)
  moreover have "row 0 \<in> set (map row [0..<length (map Timestamp a)])"
    using pos by simp
  ultimately show ?thesis
    using df by blast
qed

text \<open>
  C3. Every row of the schedule of a constructed calendar has its open before its break
  start, its break start before its break end and its break end before its close. The
  constructor checks no ordering as such: when the table of line 95 would hold a row
  that is out of order, the \<open>all_minutes\<close> the base class evaluates at line 93 raises,
  and the one exception leaves the constructor.
\<close>

theorem construction_rejects_unordered_rows:
  "(\<forall>cal. SHSZExchangeCalendar today cached mem0 start end = Inr cal \<longrightarrow>
      (\<forall>r\<in>set (schedule cal). ordered_row r)) \<and>
   (\<forall>os cs lbs lbe sched.
      days_at_time (date_range start_default (end_default today) (day (adhoc_holidays cached)))
        open_times tz 0 = Inr os \<and>
      days_at_time (date_range start_default (end_default today) (day (adhoc_holidays cached)))
        close_times tz 0 = Inr cs \<and>
      days_at_time (date_range start end (day (adhoc_holidays cached)))
        lunch_break_start tz 0 = Inr lbs \<and>
      days_at_time (date_range start end (day (adhoc_holidays cached)))
        lunch_break_end tz 0 = Inr lbe \<and>
      DataFrame (date_range start end (day (adhoc_holidays cached))) os cs lbs lbe = Inr sched \<and>
      (\<exists>r\<in>set sched. \<not> ordered_row r) \<longrightarrow>
      (\<exists>e. SHSZExchangeCalendar today cached mem0 start end = Inl e))"
proof -
  have ordered: "\<forall>r\<in>set (schedule cal). ordered_row r"
    if c: "SHSZExchangeCalendar today cached mem0 start end = Inr cal" for cal
  proof -
    from constructed(1) [OF c] obtain ts where rows: "schedule cal = map utc_row ts"
      by blast
    show ?thesis
      unfolding rows by (auto simp: ordered_utc_row)
  qed
  have raises: "\<exists>e. SHSZExchangeCalendar today cached mem0 start end = Inl e"
    if o: "days_at_time
             (date_range start_default (end_default today) (day (adhoc_holidays cached)))
             open_times tz 0 = Inr os"
      and cl: "days_at_time
             (date_range start_default (end_default today) (day (adhoc_holidays cached)))
             close_times tz 0 = Inr cs"
      and s: "days_at_time (date_range start end (day (adhoc_holidays cached)))
             lunch_break_start tz 0 = Inr lbs"
      and e: "days_at_time (date_range start end (day (adhoc_holidays cached)))
             lunch_break_end tz 0 = Inr lbe"
      and df: "DataFrame (date_range start end (day (adhoc_holidays cached))) os cs lbs lbe =
             Inr sched"
      and bad: "\<exists>r\<in>set sched. \<not> ordered_row r"
    for os cs lbs lbe sched
  proof (cases "SHSZExchangeCalendar today cached mem0 start end")
    case (Inl err)
    then show ?thesis
      by blast
  next
    case (Inr cal)
    note f = SHSZ_fields [OF Inr]
    from o cl s e have "os = opens cal" "cs = closes cal" "lbs = lunch_break_starts cal"
      "lbe = lunch_break_ends cal"
      by (simp_all add: f(1-4) days_at_open days_at_close days_at_lunch_start
          days_at_lunch_end)
    with df f(5) have "sched = schedule cal"
      by simp
    with ordered [OF Inr] bad show ?thesis
      by blast
  qed
  show ?thesis
  proof (intro conjI allI impI)
    fix cal
    assume "SHSZExchangeCalendar today cached mem0 start end = Inr cal"
    then show "\<forall>r\<in>set (schedule cal). ordered_row r"
      by (rule ordered)
  next
    fix os cs lbs lbe sched
    assume "days_at_time
             (date_range start_default (end_default today) (day (adhoc_holidays cached)))
             open_times tz 0 = Inr os \<and>
      days_at_time (date_range start_default (end_default today) (day (adhoc_holidays cached)))
        close_times tz 0 = Inr cs \<and>
      days_at_time (date_range start end (day (adhoc_holidays cached)))
        lunch_break_start tz 0 = Inr lbs \<and>
      days_at_time (date_range start end (day (adhoc_holidays cached)))
        lunch_break_end tz 0 = Inr lbe \<and>
      DataFrame (date_range start end (day (adhoc_holidays cached))) os cs lbs lbe = Inr sched \<and>
      (\<exists>r\<in>set sched. \<not> ordered_row r)"
    then show "\<exists>e. SHSZExchangeCalendar today cached mem0 start end = Inl e"
      by (elim conjE) (rule raises)
  qed
qed

text \<open>
  The module imported on 2016-03-14. With the holiday file holding 2016-01-01 and the
  default arguments, the calendar is constructed and its rows are in order. With no
  holidays and the arguments 1990-12-18 and 2017-03-13, one day earlier than the default
  range at both ends, the first row of the table would have its break start, 1990-12-18
  03:30 UTC, before its open, 1990-12-19 01:31 UTC: the constructor raises.
\<close>

theorem construction_rejects_unordered_rows_witness:
  "(\<exists>cal. SHSZExchangeCalendar (days_from_civil 2016 3 14) [days_from_civil 2016 1 1] (\<lambda>i. 0)
            start_default (end_default (days_from_civil 2016 3 14)) = Inr cal \<and>
          list_all ordered_row (schedule cal)) \<and>
   (\<exists>e. SHSZExchangeCalendar (days_from_civil 2016 3 14) [] (\<lambda>i. 0)
           (days_from_civil 1990 12 18) (days_from_civil 2017 3 13) = Inl e)"
proof -
  obtain cal where c: "SHSZExchangeCalendar (days_from_civil 2016 3 14)
      [days_from_civil 2016 1 1] (\<lambda>i. 0) start_default
      (end_default (days_from_civil 2016 3 14)) = Inr cal"
    using scenario_constructed by blast
  from construction_rejects_unordered_rows
    [of "days_from_civil 2016 3 14" "[days_from_civil 2016 1 1]" "\<lambda>i. 0" start_default
      "end_default (days_from_civil 2016 3 14)"] c
  have first: "list_all ordered_row (schedule cal)"
    by (simp add: list_all_iff)
  define f where "f = day (adhoc_holidays [])"
  define a where "a = filter f [7656..17238]"
  define d where "d = filter f [7657..17239]"
  have f: "f 7656" "f 7657" "f 17239"
    by (simp_all add: f_def scenario_days)
  have "d = 7657 # filter f [7657 + 1..17239]"
    unfolding d_def using f(2) by (intro filter_upto_first) simp_all
  then have d0: "d ! 0 = 7657"
    by (simp only: nth_Cons_0)
  have "a = 7656 # filter f [7656 + 1..17238]"
    unfolding a_def using f(1) by (intro filter_upto_first) simp_all
  then have a0: "a ! 0 = 7656" "0 < length a"
    by (simp_all only: nth_Cons_0 length_Cons zero_less_Suc)
  have "length (filter f [7656 + 1..17238 + 1]) = length (filter f [7656..17238])"
    using f by (intro filter_upto_shift_length) simp_all
  moreover have "(7656::int) + 1 = 7657" "(17238::int) + 1 = 17239"
    by simp_all
  ultimately have len: "length a = length d"
    by (simp only: a_def d_def)
  have lt: "a ! 0 < d ! 0"
    by (simp only: a0 d0)
  have e: "end_default 16874 = 17239"
    by (simp add: end_default_def)
  from earlier_days_table [OF len a0(2) lt] obtain sched where
    df: "DataFrame (map Timestamp a)
           (map (\<lambda>t. t + 91 * NANOS_IN_MINUTE) (map Timestamp d))
           (map (\<lambda>t. t + 420 * NANOS_IN_MINUTE) (map Timestamp d))
           (map (\<lambda>t. t + 210 * NANOS_IN_MINUTE) (map Timestamp a))
           (map (\<lambda>t. t + 301 * NANOS_IN_MINUTE) (map Timestamp a)) = Inr sched"
    and bad: "\<exists>r\<in>set sched. \<not> ordered_row r"
    by blast
  have A: "date_range 7656 17238 (day (adhoc_holidays [])) = map Timestamp a"
    and D: "date_range start_default (end_default 16874) (day (adhoc_holidays [])) =
      map Timestamp d"
    by (simp_all only: date_range_def a_def d_def f_def scenario_default_range(1) e)
  note t = construction_rejects_unordered_rows [of 16874 "[]" "\<lambda>i. 0" 7656 17238,
      unfolded A D days_at_open days_at_close days_at_lunch_start days_at_lunch_end]
  from t df bad have "\<exists>e. SHSZExchangeCalendar 16874 [] (\<lambda>i. 0) 7656 17238 = Inl e"
    by blast
  then have "\<exists>e. SHSZExchangeCalendar (days_from_civil 2016 3 14) [] (\<lambda>i. 0)
           (days_from_civil 1990 12 18) (days_from_civil 2017 3 13) = Inl e"
    by (simp only: scenario_dates)
  with c first show ?thesis
    by blast
qed

text \<open>
  C6, at the range 2016-01-01..2016-01-01 with 2016-01-01 a holiday, the module imported
  on 2016-03-14: the range has no trading day, and the constructor raises, at the
  subtraction of line 152 in the \<open>all_minutes\<close> the base class evaluates.
\<close>

theorem holiday_only_range_raises:
  "date_range (days_from_civil 2016 1 1) (days_from_civil 2016 1 1)
     (day (adhoc_holidays [days_from_civil 2016 1 1])) = [] \<and>
   SHSZExchangeCalendar (days_from_civil 2016 3 14) [days_from_civil 2016 1 1] mem0
     (days_from_civil 2016 1 1) (days_from_civil 2016 1 1) = Inl ValueError"
proof -
  define f where "f = day (adhoc_holidays [16801])"
  have "\<not> f 16801"
    by (simp add: f_def day_def adhoc_holidays_def)
  then have a: "filter f [16801..16801] = []"
    by simp
  have "f 7657" "f (7657 + 1)"
    by (simp_all add: f_def day_def adhoc_holidays_def Timestamp_eq scenario_weekdays
        WEDNESDAY_def THURSDAY_def SATURDAY_def)
  then have "2 \<le> length (filter f [7657..17239])"
    by (intro filter_upto_two) simp_all
  with a have ne: "length (filter f [16801..16801]) \<noteq> length (filter f [7657..17239])"
    "length (filter f [7657..17239]) \<noteq> 1"
    by (simp_all only: list.size)
  have ne1: "length (filter f [16801..16801]) \<noteq> 1"
    unfolding a by simp
  have e: "end_default 16874 = 17239"
    by (simp add: end_default_def)
  note SHSZ_raises [of "[16801]" 16801 16801 16874 mem0,
      unfolded scenario_default_range(1) e, folded f_def]
  from this [OF ne ne1] have
    "SHSZExchangeCalendar 16874 [16801] mem0 16801 16801 = Inl ValueError" .
  with a show ?thesis
    by (simp only: scenario_dates date_range_def f_def list.map)
qed

text \<open>
  C10. Whatever \<open>start\<close> and \<open>end\<close> are, the base class is initialised with the range from
  1990-12-19 to 365 days after the import: the opens and closes of a constructed calendar
  are what \<open>days_at_time\<close> gives for the trading days of that range, so two calendars
  constructed from different arguments hold the same opens and closes; the sessions and
  the two lunch break series are those of the arguments.
\<close>

theorem base_calendar_ignores_arguments:
  assumes c1: "SHSZExchangeCalendar today cached mem1 start1 end1 = Inr cal1"
    and c2: "SHSZExchangeCalendar today cached mem2 start2 end2 = Inr cal2"
  shows "TradingCalendar_init (adhoc_holidays cached) (days_from_civil 1990 12 19) (today + 365)
           (\<lambda>os cs. all_minutes
               \<lparr>opens = os, closes = cs, lunch_break_starts = lunch_break_starts cal1,
                lunch_break_ends = lunch_break_ends cal1\<rparr> mem1) =
           Inr (opens cal1, closes cal1) \<and>
         days_at_time
           (date_range (days_from_civil 1990 12 19) (today + 365) (day (adhoc_holidays cached)))
           open_times tz 0 = Inr (opens cal1) \<and>
         days_at_time
           (date_range (days_from_civil 1990 12 19) (today + 365) (day (adhoc_holidays cached)))
           close_times tz 0 = Inr (closes cal1) \<and>
         opens cal2 = opens cal1 \<and> closes cal2 = closes cal1 \<and>
         all_sessions cal1 = date_range start1 end1 (day (adhoc_holidays cached)) \<and>
         days_at_time (all_sessions cal1) lunch_break_start tz 0 = Inr (lunch_break_starts cal1) \<and>
         days_at_time (all_sessions cal1) lunch_break_end tz 0 = Inr (lunch_break_ends cal1)"
proof -
  note f = SHSZ_fields [OF c1]
  from SHSZ_minutes_return [OF c1] obtain g where g: "all_minutes cal1 mem1 = Inr g"
    by blast
  have "all_minutes \<lparr>opens = opens cal1, closes = closes cal1,
          lunch_break_starts = lunch_break_starts cal1,
          lunch_break_ends = lunch_break_ends cal1\<rparr> mem1 = all_minutes cal1 mem1"
    by (rule all_minutes_fields) simp_all
  with g f(6) have "TradingCalendar_init (adhoc_holidays cached) start_default
      (end_default today)
      (\<lambda>os cs. all_minutes
          \<lparr>opens = os, closes = cs, lunch_break_starts = lunch_break_starts cal1,
           lunch_break_ends = lunch_break_ends cal1\<rparr> mem1) = Inr (opens cal1, closes cal1)"
    by (simp add: TradingCalendar_init_eq f(1,2) [symmetric])
  then have init: "TradingCalendar_init (adhoc_holidays cached) (days_from_civil 1990 12 19)
      (today + 365)
      (\<lambda>os cs. all_minutes
          \<lparr>opens = os, closes = cs, lunch_break_starts = lunch_break_starts cal1,
           lunch_break_ends = lunch_break_ends cal1\<rparr> mem1) = Inr (opens cal1, closes cal1)"
    by (simp only: start_default_def end_default_def)
  have "days_at_time
          (date_range start_default (end_default today) (day (adhoc_holidays cached)))
          open_times tz 0 = Inr (opens cal1)"
    "days_at_time
          (date_range start_default (end_default today) (day (adhoc_holidays cached)))
          close_times tz 0 = Inr (closes cal1)"
    by (simp_all add: f(1,2) days_at_open days_at_close)
  then have base: "days_at_time
          (date_range (days_from_civil 1990 12 19) (today + 365) (day (adhoc_holidays cached)))
          open_times tz 0 = Inr (opens cal1)"
    "days_at_time
          (date_range (days_from_civil 1990 12 19) (today + 365) (day (adhoc_holidays cached)))
          close_times tz 0 = Inr (closes cal1)"
    by (simp_all only: start_default_def end_default_def)
  have same: "opens cal2 = opens cal1" "closes cal2 = closes cal1"
    by (simp_all add: f(1,2) SHSZ_fields(1,2) [OF c2])
  have lunch: "days_at_time (all_sessions cal1) lunch_break_start tz 0 =
      Inr (lunch_break_starts cal1)"
    "days_at_time (all_sessions cal1) lunch_break_end tz 0 = Inr (lunch_break_ends cal1)"
    by (simp_all add: SHSZ_sessions [OF c1] f(3,4) days_at_lunch_start days_at_lunch_end)
  from init base same lunch SHSZ_sessions [OF c1] show ?thesis
    by (intro conjI)
qed

text \<open>
  The module imported on 2016-03-11 with no holidays, so that the default range ends on
  Saturday 2017-03-11: the default arguments, and the arguments 1990-12-19 and Sunday
  2017-03-12.
\<close>

theorem base_calendar_ignores_arguments_witness:
  "\<exists>cal1 cal2.
     SHSZExchangeCalendar (days_from_civil 2016 3 11) [] (\<lambda>i. 0)
       start_default (end_default (days_from_civil 2016 3 11)) = Inr cal1 \<and>
     SHSZExchangeCalendar (days_from_civil 2016 3 11) [] (\<lambda>i. 1)
       (days_from_civil 1990 12 19) (days_from_civil 2017 3 12) = Inr cal2 \<and>
     end_default (days_from_civil 2016 3 11) < days_from_civil 2017 3 12 \<and>
     opens cal2 = opens cal1 \<and> closes cal2 = closes cal1 \<and>
     days_at_time
       (date_range (days_from_civil 1990 12 19) (days_from_civil 2016 3 11 + 365)
          (day (adhoc_holidays [])))
       open_times tz 0 = Inr (opens cal1) \<and>
     days_at_time
       (date_range (days_from_civil 1990 12 19) (days_from_civil 2016 3 11 + 365)
          (day (adhoc_holidays [])))
       close_times tz 0 = Inr (closes cal1)"
proof -
  define f where "f = day (adhoc_holidays [])"
  have ne: "date_range start_default (end_default (days_from_civil 2016 3 11))
      (day (adhoc_holidays [])) \<noteq> []"
    by (rule default_range_not_empty) (simp_all add: scenario_default_range)
  from SHSZ_same_days [OF refl ne] obtain cal1 where
    c1: "SHSZExchangeCalendar (days_from_civil 2016 3 11) [] (\<lambda>i. 0)
      start_default (end_default (days_from_civil 2016 3 11)) = Inr cal1"
    by blast
  have "\<not> f 17237"
    by (simp add: f_def scenario_days)
  then have "filter f [7657..17237] = filter f [7657..17236]"
    by (intro filter_upto_skip_last) simp_all
  moreover have "end_default 16871 = 17236"
    by (simp add: end_default_def)
  ultimately have same: "date_range (days_from_civil 1990 12 19) (days_from_civil 2017 3 12)
      (day (adhoc_holidays [])) =
    date_range start_default (end_default (days_from_civil 2016 3 11))
      (day (adhoc_holidays []))"
    by (simp only: date_range_def scenario_dates scenario_default_range f_def)
  from SHSZ_same_days [OF same ne] obtain cal2 where
    c2: "SHSZExchangeCalendar (days_from_civil 2016 3 11) [] (\<lambda>i. 1)
      (days_from_civil 1990 12 19) (days_from_civil 2017 3 12) = Inr cal2"
    by blast
  have "end_default (days_from_civil 2016 3 11) < days_from_civil 2017 3 12"
    by (simp add: end_default_def scenario_dates)
  with base_calendar_ignores_arguments [OF c1 c2] c1 c2 show ?thesis
    by blast
qed

text \<open>
  C8. When 2016-03-14 is in the default range and is no holiday, the calendar of the
  default arguments has a row for it whose boundaries are 01:31, 03:30, 05:01 and 07:00
  UTC of that day, each what \<open>days_at_time\<close> gives for the configured time in
  Asia/Shanghai; \<open>all_minutes\<close> sizes the day at 120 minutes before and 120 after the
  break, and \<open>minutes_per_session\<close> counts 240.
\<close>

theorem session_2016_03_14:
  assumes inside: "days_from_civil 2016 3 14 \<le> end_default today"
    and no_holiday: "days_from_civil 2016 3 14 \<notin> set cached"
  shows "\<exists>cal bs afs i.
           SHSZExchangeCalendar today cached mem0 start_default (end_default today) = Inr cal \<and>
           daily_before_lunch_sizes cal = Inr bs \<and> daily_after_lunch_sizes cal = Inr afs \<and>
           i < length (schedule cal) \<and>
           schedule cal ! i =
             \<lparr>session = Timestamp (days_from_civil 2016 3 14),
              market_open = Timestamp (days_from_civil 2016 3 14) + Timedelta 0 1 31 0,
              market_close = Timestamp (days_from_civil 2016 3 14) + Timedelta 0 7 0 0,
              lunch_break_start_col = Timestamp (days_from_civil 2016 3 14) + Timedelta 0 3 30 0,
              lunch_break_end_col = Timestamp (days_from_civil 2016 3 14) + Timedelta 0 5 1 0\<rparr> \<and>
           localized_row (schedule cal ! i) \<and>
           bs ! i = 120 \<and> afs ! i = 120 \<and> minutes_per_session cal ! i = 240"
proof -
  define a where "a = filter (day (adhoc_holidays cached)) [start_default..end_default today]"
  have "day (adhoc_holidays cached) 16874"
    using no_holiday by (simp add: day_iff scenario_dates scenario_weekdays MONDAY_def
        SATURDAY_def SUNDAY_def)
  with inside have in_a: "16874 \<in> set a"
    by (simp add: a_def scenario_dates start_default_eq)
  then obtain i where i: "i < length a" "a ! i = 16874"
    by (auto simp: in_set_conv_nth)
  from in_a have "a \<noteq> []"
    by auto
  then have ne: "date_range start_default (end_default today)
      (day (adhoc_holidays cached)) \<noteq> []"
    by (simp add: date_range_def a_def)
  from SHSZ_same_days [OF refl ne] obtain cal where
    c: "SHSZExchangeCalendar today cached mem0 start_default (end_default today) = Inr cal"
    by blast
  have rows: "schedule cal = map utc_row (map Timestamp a)"
    using c by (auto simp: SHSZ_same_days [OF refl ne] date_range_def a_def)
  have h: "holds_days cal a a"
    unfolding a_def by (rule SHSZ_holds_days [OF c])
  have t: "Timedelta 0 1 31 0 = 91 * NANOS_IN_MINUTE" "Timedelta 0 7 0 0 = 420 * NANOS_IN_MINUTE"
    "Timedelta 0 3 30 0 = 210 * NANOS_IN_MINUTE" "Timedelta 0 5 1 0 = 301 * NANOS_IN_MINUTE"
    by (simp_all add: Timedelta_minutes)
  have r: "schedule cal ! i = utc_row (Timestamp 16874)"
    using i by (simp add: rows)
  have "minutes_per_session cal ! i = 240"
    using i minutes_per_session_utc_row [of "Timestamp 16874"]
    by (simp add: minutes_per_session_def rows length_session_minutes_utc_row)
  moreover have "map2 (\<lambda>x y. (x - y) * 1440 + 120) a a ! i = 120"
    "map2 (\<lambda>x y. (y - x) * 1440 + 120) a a ! i = 120"
    using i by simp_all
  moreover have "localized_row (schedule cal ! i)"
    by (simp add: r localized_row_iff utc_row_def)
  moreover have "i < length (schedule cal)"
    using i by (simp add: rows)
  ultimately show ?thesis
    using c holds_days_sizes(1,2) [OF h refl] r
    by (auto simp: scenario_dates t utc_row_def)
qed

text \<open>The module imported on 2016-03-14, the holiday file holding 2016-01-01.\<close>

theorem session_2016_03_14_witness:
  "\<exists>cal bs afs i.
     SHSZExchangeCalendar (days_from_civil 2016 3 14) [days_from_civil 2016 1 1] (\<lambda>i. 0)
       start_default (end_default (days_from_civil 2016 3 14)) = Inr cal \<and>
     daily_before_lunch_sizes cal = Inr bs \<and> daily_after_lunch_sizes cal = Inr afs \<and>
     i < length (schedule cal) \<and>
     schedule cal ! i =
       \<lparr>session = Timestamp (days_from_civil 2016 3 14),
        market_open = Timestamp (days_from_civil 2016 3 14) + Timedelta 0 1 31 0,
        market_close = Timestamp (days_from_civil 2016 3 14) + Timedelta 0 7 0 0,
        lunch_break_start_col = Timestamp (days_from_civil 2016 3 14) + Timedelta 0 3 30 0,
        lunch_break_end_col = Timestamp (days_from_civil 2016 3 14) + Timedelta 0 5 1 0\<rparr> \<and>
     bs ! i = 120 \<and> afs ! i = 120 \<and> minutes_per_session cal ! i = 240"
proof -
  have "days_from_civil 2016 3 14 \<le> end_default (days_from_civil 2016 3 14)"
    "days_from_civil 2016 3 14 \<notin> set [days_from_civil 2016 1 1]"
    by (simp_all add: end_default_def scenario_dates)
  from session_2016_03_14 [OF this] show ?thesis
    by blast
qed

end
